theory Spec2Isabelle
  imports Complex_Main "HOL-Library.Char_ord" "HOL-Library.List_Lexorder" "HOL-Library.Multiset"
begin

section \<open>List view engine (src/components/ApplicationsList.js)\<close>

subsection \<open>Listing records\<close>

text \<open>
  One entry of \<open>mockApplications\<close> (src/data/mockData.js). The field \<open>id\<close> of the source
  is \<open>app_id\<close> here and the other fields carry the same prefix, since the form's value set
  has fields of the same names.
\<close>

record application =
  app_id :: int
  app_firstName :: string
  app_lastName :: string
  app_email :: string
  app_country :: string
  app_city :: string
  app_industry :: string
  app_role :: string
  app_experience :: string
  app_salary :: int
  app_status :: string
  app_createdAt :: string

text \<open>The columns whose header calls \<open>handleSort\<close>, and the initial sort field \<open>createdAt\<close>.\<close>

datatype sort_field = FieldId | FieldFirstName | FieldEmail | FieldCountry | FieldRole
  | FieldSalary | FieldStatus | FieldCreatedAt

datatype direction = Asc | Desc

text \<open>A JavaScript value read by \<open>a[sortField]\<close>: a number or a string.\<close>

datatype jsval = Num int | Str string

fun get_field :: "sort_field \<Rightarrow> application \<Rightarrow> jsval" where
  "get_field FieldId a = Num (app_id a)"
| "get_field FieldFirstName a = Str (app_firstName a)"
| "get_field FieldEmail a = Str (app_email a)"
| "get_field FieldCountry a = Str (app_country a)"
| "get_field FieldRole a = Str (app_role a)"
| "get_field FieldSalary a = Num (app_salary a)"
| "get_field FieldStatus a = Str (app_status a)"
| "get_field FieldCreatedAt a = Str (app_createdAt a)"

text \<open>
  \<open>String.prototype.toLowerCase\<close> on the ASCII letters. The characters of a \<open>string\<close> are
  bytes and the other bytes are left as they are: a cased letter outside ASCII, which the
  source folds, is not folded here.
\<close>

definition lower_char :: "char \<Rightarrow> char" where
  "lower_char c =
     (if CHR ''A'' \<le> c \<and> c \<le> CHR ''Z'' then char_of (of_char c + (32::nat)) else c)"

definition toLowerCase :: "string \<Rightarrow> string" where
  "toLowerCase s = map lower_char s"

text \<open>
  The source's \<open>if (typeof aVal === 'string') { aVal = aVal.toLowerCase(); bVal = bVal.toLowerCase() }\<close>.
  Both operands are the same field of two records, hence of the same type.
\<close>

fun fold_case :: "jsval \<Rightarrow> jsval" where
  "fold_case (Str s) = Str (toLowerCase s)"
| "fold_case (Num n) = Num n"

text \<open>
  The relational operators greater-than and less-than of JavaScript on two numbers and on two strings
  (strings compare lexicographically by code unit). The mixed cases do not arise, both
  operands being the same field.
\<close>

fun js_gt :: "jsval \<Rightarrow> jsval \<Rightarrow> bool" where
  "js_gt (Num x) (Num y) = (x > y)"
| "js_gt (Str x) (Str y) = (x > y)"
| "js_gt _ _ = False"

fun js_lt :: "jsval \<Rightarrow> jsval \<Rightarrow> bool" where
  "js_lt (Num x) (Num y) = (x < y)"
| "js_lt (Str x) (Str y) = (x < y)"
| "js_lt _ _ = False"

text \<open>The comparator handed to \<open>Array.prototype.sort\<close> (lines 50 to 65).\<close>

definition compareFn :: "sort_field \<Rightarrow> direction \<Rightarrow> application \<Rightarrow> application \<Rightarrow> int" where
  "compareFn sortField sortDirection a b =
     (let aVal = fold_case (get_field sortField a);
          bVal = fold_case (get_field sortField b)
      in if sortDirection = Asc
         then (if js_gt aVal bVal then 1 else - 1)
         else (if js_lt aVal bVal then 1 else - 1))"

text \<open>
  The comparator as the specification words it, for comparison with \<open>compareFn\<close>: the same
  case folding and direction, and \<open>0\<close> for keys that compare equal, so that a tie is
  left to the original order.
\<close>

definition compareFn_spec :: "sort_field \<Rightarrow> direction \<Rightarrow> application \<Rightarrow> application \<Rightarrow> int" where
  "compareFn_spec sortField sortDirection a b =
     (let aVal = fold_case (get_field sortField a);
          bVal = fold_case (get_field sortField b)
      in if aVal = bVal then 0
         else if sortDirection = Asc
         then (if js_gt aVal bVal then 1 else - 1)
         else (if js_lt aVal bVal then 1 else - 1))"

text \<open>
  \<open>Array.prototype.sort\<close> belongs to the JavaScript engine, not to this repository, and
  ECMAScript fixes its result only for a consistent comparator. The engine's sort is
  therefore a parameter \<open>sort_impl\<close> of the model.
\<close>

type_synonym sort_engine = "(application \<Rightarrow> application \<Rightarrow> int) \<Rightarrow> application list \<Rightarrow> application list"

definition sortedAndFilteredData ::
  "sort_engine \<Rightarrow> application list \<Rightarrow> sort_field \<Rightarrow> direction \<Rightarrow> string \<Rightarrow> application list" where
  "sortedAndFilteredData sort_impl applications sortField sortDirection filterStatus =
     (let filtered = (if filterStatus \<noteq> ''all''
                      then filter (\<lambda>app. app_status app = filterStatus) applications
                      else applications)
      in sort_impl (compareFn sortField sortDirection) filtered)"

text \<open>
  A reference engine: insertion sort that puts the element taken from the input before
  the first placed element \<open>y\<close> with \<open>cmp x y < 0\<close>, the test by which the binary
  insertion of a TimSort moves its pivot to the left. With a comparator that answers
  \<open>0\<close> on equal keys the element goes behind its equals.
\<close>

fun insert_by :: "('a \<Rightarrow> 'a \<Rightarrow> int) \<Rightarrow> 'a \<Rightarrow> 'a list \<Rightarrow> 'a list" where
  "insert_by cmp x [] = [x]"
| "insert_by cmp x (y # ys) = (if cmp x y < 0 then x # y # ys else y # insert_by cmp x ys)"

definition insertion_sort :: "('a \<Rightarrow> 'a \<Rightarrow> int) \<Rightarrow> 'a list \<Rightarrow> 'a list" where
  "insertion_sort cmp xs = foldl (\<lambda>acc x. insert_by cmp x acc) [] xs"

subsection \<open>Pagination\<close>

text \<open>\<open>const [itemsPerPage] = useState(5)\<close>: the page size has no setter.\<close>

definition itemsPerPage :: int where
  "itemsPerPage = 5"

text \<open>
  \<open>Array.prototype.slice(start, end)\<close>: a negative index counts from the end, and both
  indices are clamped into \<open>[0, length]\<close>.
\<close>

definition js_slice :: "'a list \<Rightarrow> int \<Rightarrow> int \<Rightarrow> 'a list" where
  "js_slice xs start end' =
     (let n = int (length xs);
          k = (if start < 0 then max (n + start) 0 else min start n);
          final = (if end' < 0 then max (n + end') 0 else min end' n)
      in take (nat (final - k)) (drop (nat k) xs))"

definition paginatedData :: "application list \<Rightarrow> int \<Rightarrow> application list" where
  "paginatedData sortedData currentPage =
     (let startIndex = (currentPage - 1) * itemsPerPage;
          endIndex = startIndex + itemsPerPage
      in js_slice sortedData startIndex endIndex)"

text \<open>\<open>Math.ceil(sortedAndFilteredData.length / itemsPerPage)\<close>, the division being real.\<close>

definition totalPages :: "application list \<Rightarrow> int" where
  "totalPages sortedData = \<lceil>real (length sortedData) / real_of_int itemsPerPage\<rceil>"

subsection \<open>View state and its handlers\<close>

record view_state =
  applications :: "application list"
  currentPage :: int
  sortField :: sort_field
  sortDirection :: direction
  filterStatus :: string

text \<open>The \<open>useState\<close> initial values of the component, over a given collection.\<close>

definition initial_view :: "application list \<Rightarrow> view_state" where
  "initial_view apps =
     \<lparr>applications = apps, currentPage = 1, sortField = FieldCreatedAt,
      sortDirection = Desc, filterStatus = ''all''\<rparr>"

definition handleSort :: "sort_field \<Rightarrow> view_state \<Rightarrow> view_state" where
  "handleSort field v =
     (if sortField v = field
      then v\<lparr>sortDirection := (if sortDirection v = Asc then Desc else Asc)\<rparr>
      else v\<lparr>sortField := field, sortDirection := Asc\<rparr>)"

text \<open>The \<open>onPress\<close> of a filter button: \<open>setFilterStatus(status); setCurrentPage(1)\<close>.\<close>

definition setFilter :: "string \<Rightarrow> view_state \<Rightarrow> view_state" where
  "setFilter status v = v\<lparr>filterStatus := status, currentPage := 1\<rparr>"

text \<open>What the component renders from its state: the slice, the count, the page count.\<close>

definition derive :: "sort_engine \<Rightarrow> view_state \<Rightarrow> application list \<times> nat \<times> int" where
  "derive sort_impl v =
     (let sorted = sortedAndFilteredData sort_impl (applications v) (sortField v)
                     (sortDirection v) (filterStatus v)
      in (paginatedData sorted (currentPage v), length sorted, totalPages sorted))"

subsection \<open>The collection of src/data/mockData.js\<close>

definition mockApplications :: "application list" where
  "mockApplications =
    [\<lparr>app_id = 1, app_firstName = ''John'', app_lastName = ''Doe'',
      app_email = ''john.doe@example.com'', app_country = ''United States'',
      app_city = ''New York'', app_industry = ''Technology'', app_role = ''Software Engineer'',
      app_experience = ''Senior Level (6-10 years)'', app_salary = 120000,
      app_status = ''submitted'', app_createdAt = ''2024-11-01T10:30:00Z''\<rparr>,
     \<lparr>app_id = 2, app_firstName = ''Jane'', app_lastName = ''Smith'',
      app_email = ''jane.smith@example.com'', app_country = ''Canada'',
      app_city = ''Toronto'', app_industry = ''Finance'', app_role = ''Financial Analyst'',
      app_experience = ''Mid Level (3-5 years)'', app_salary = 85000,
      app_status = ''draft'', app_createdAt = ''2024-11-03T14:20:00Z''\<rparr>,
     \<lparr>app_id = 3, app_firstName = ''Robert'', app_lastName = ''Johnson'',
      app_email = ''robert.j@example.com'', app_country = ''United Kingdom'',
      app_city = ''London'', app_industry = ''Healthcare'', app_role = ''Nurse'',
      app_experience = ''Entry Level (0-2 years)'', app_salary = 62000,
      app_status = ''submitted'', app_createdAt = ''2024-11-05T09:15:00Z''\<rparr>,
     \<lparr>app_id = 4, app_firstName = ''Maria'', app_lastName = ''Garcia'',
      app_email = ''maria.garcia@example.com'', app_country = ''Germany'',
      app_city = ''Berlin'', app_industry = ''Technology'', app_role = ''Data Scientist'',
      app_experience = ''Expert Level (10+ years)'', app_salary = 145000,
      app_status = ''submitted'', app_createdAt = ''2024-11-07T11:45:00Z''\<rparr>,
     \<lparr>app_id = 5, app_firstName = ''Pierre'', app_lastName = ''Dupont'',
      app_email = ''pierre.dupont@example.com'', app_country = ''France'',
      app_city = ''Paris'', app_industry = ''Education'', app_role = ''Professor'',
      app_experience = ''Senior Level (6-10 years)'', app_salary = 78000,
      app_status = ''draft'', app_createdAt = ''2024-11-08T16:00:00Z''\<rparr>]"

section \<open>Form state controller (components/JobApplicationForm)\<close>

subsection \<open>Option tables of src/data/mockData.js\<close>

record option_item =
  opt_id :: int
  opt_name :: string

record role_item =
  role_id :: int
  role_name :: string
  minSalary :: int

text \<open>
  \<open>citiesByCountry\<close> and \<open>rolesByIndustry\<close>: objects keyed by the parent's id. A key that
  is absent reads as \<open>undefined\<close>, here \<open>None\<close>.
\<close>

definition citiesByCountry :: "int \<Rightarrow> option_item list option" where
  "citiesByCountry k =
     (if k = 1 then Some [\<lparr>opt_id = 101, opt_name = ''New York''\<rparr>,
                          \<lparr>opt_id = 102, opt_name = ''Los Angeles''\<rparr>,
                          \<lparr>opt_id = 103, opt_name = ''Chicago''\<rparr>,
                          \<lparr>opt_id = 104, opt_name = ''Houston''\<rparr>]
      else if k = 2 then Some [\<lparr>opt_id = 201, opt_name = ''Toronto''\<rparr>,
                               \<lparr>opt_id = 202, opt_name = ''Vancouver''\<rparr>,
                               \<lparr>opt_id = 203, opt_name = ''Montreal''\<rparr>]
      else if k = 3 then Some [\<lparr>opt_id = 301, opt_name = ''London''\<rparr>,
                               \<lparr>opt_id = 302, opt_name = ''Manchester''\<rparr>,
                               \<lparr>opt_id = 303, opt_name = ''Birmingham''\<rparr>]
      else if k = 4 then Some [\<lparr>opt_id = 401, opt_name = ''Berlin''\<rparr>,
                               \<lparr>opt_id = 402, opt_name = ''Munich''\<rparr>,
                               \<lparr>opt_id = 403, opt_name = ''Hamburg''\<rparr>]
      else if k = 5 then Some [\<lparr>opt_id = 501, opt_name = ''Paris''\<rparr>,
                               \<lparr>opt_id = 502, opt_name = ''Lyon''\<rparr>,
                               \<lparr>opt_id = 503, opt_name = ''Marseille''\<rparr>]
      else None)"

definition rolesByIndustry :: "int \<Rightarrow> role_item list option" where
  "rolesByIndustry k =
     (if k = 1 then Some [\<lparr>role_id = 101, role_name = ''Software Engineer'', minSalary = 80000\<rparr>,
                          \<lparr>role_id = 102, role_name = ''Product Manager'', minSalary = 90000\<rparr>,
                          \<lparr>role_id = 103, role_name = ''DevOps Engineer'', minSalary = 85000\<rparr>,
                          \<lparr>role_id = 104, role_name = ''Data Scientist'', minSalary = 95000\<rparr>]
      else if k = 2 then Some [\<lparr>role_id = 201, role_name = ''Nurse'', minSalary = 60000\<rparr>,
                               \<lparr>role_id = 202, role_name = ''Medical Assistant'', minSalary = 40000\<rparr>,
                               \<lparr>role_id = 203, role_name = ''Healthcare Admin'', minSalary = 50000\<rparr>]
      else if k = 3 then Some [\<lparr>role_id = 301, role_name = ''Financial Analyst'', minSalary = 70000\<rparr>,
                               \<lparr>role_id = 302, role_name = ''Accountant'', minSalary = 65000\<rparr>,
                               \<lparr>role_id = 303, role_name = ''Investment Banker'', minSalary = 100000\<rparr>]
      else if k = 4 then Some [\<lparr>role_id = 401, role_name = ''Teacher'', minSalary = 45000\<rparr>,
                               \<lparr>role_id = 402, role_name = ''Professor'', minSalary = 70000\<rparr>,
                               \<lparr>role_id = 403, role_name = ''Administrator'', minSalary = 55000\<rparr>]
      else if k = 5 then Some [\<lparr>role_id = 501, role_name = ''Production Manager'', minSalary = 65000\<rparr>,
                               \<lparr>role_id = 502, role_name = ''Quality Engineer'', minSalary = 70000\<rparr>,
                               \<lparr>role_id = 503, role_name = ''Operations Manager'', minSalary = 75000\<rparr>]
      else None)"

subsection \<open>Field values\<close>

text \<open>
  The twelve fields of the form, with the types of their \<open>useState\<close> defaults. Both
  \<open>formData\<close> and the store of react-hook-form (what \<open>watch()\<close> returns) hold all twelve,
  the store being created from \<open>defaultValues: formData\<close>.
\<close>

record form_values =
  firstName :: string
  lastName :: string
  email :: string
  phone :: string
  countryId :: int
  cityId :: int
  address :: string
  postalCode :: string
  industryId :: int
  roleId :: int
  experienceId :: int
  expectedSalary :: int

text \<open>The defaults written in \<open>useState({...})\<close>, before \<open>...initialData\<close> overrides any of them.\<close>

definition default_values :: form_values where
  "default_values =
     \<lparr>firstName = '''', lastName = '''', email = '''', phone = '''', countryId = 0, cityId = 0,
      address = '''', postalCode = '''', industryId = 0, roleId = 0, experienceId = 0,
      expectedSalary = 0\<rparr>"

text \<open>
  A call of a \<open>Controller\<close>'s \<open>onChange\<close>: the field and a value of the field's type. The
  salary input hands over \<open>parseInt(...) || 0\<close>, an integer.
\<close>

datatype field_update =
    SetFirstName string | SetLastName string | SetEmail string | SetPhone string
  | SetCountryId int | SetCityId int | SetAddress string | SetPostalCode string
  | SetIndustryId int | SetRoleId int | SetExperienceId int | SetExpectedSalary int

fun apply_update :: "field_update \<Rightarrow> form_values \<Rightarrow> form_values" where
  "apply_update (SetFirstName x) v = v\<lparr>firstName := x\<rparr>"
| "apply_update (SetLastName x) v = v\<lparr>lastName := x\<rparr>"
| "apply_update (SetEmail x) v = v\<lparr>email := x\<rparr>"
| "apply_update (SetPhone x) v = v\<lparr>phone := x\<rparr>"
| "apply_update (SetCountryId x) v = v\<lparr>countryId := x\<rparr>"
| "apply_update (SetCityId x) v = v\<lparr>cityId := x\<rparr>"
| "apply_update (SetAddress x) v = v\<lparr>address := x\<rparr>"
| "apply_update (SetPostalCode x) v = v\<lparr>postalCode := x\<rparr>"
| "apply_update (SetIndustryId x) v = v\<lparr>industryId := x\<rparr>"
| "apply_update (SetRoleId x) v = v\<lparr>roleId := x\<rparr>"
| "apply_update (SetExperienceId x) v = v\<lparr>experienceId := x\<rparr>"
| "apply_update (SetExpectedSalary x) v = v\<lparr>expectedSalary := x\<rparr>"

text \<open>The step whose block renders the field's \<open>Controller\<close>.\<close>

fun field_step :: "field_update \<Rightarrow> int" where
  "field_step (SetFirstName _) = 1"
| "field_step (SetLastName _) = 1"
| "field_step (SetEmail _) = 1"
| "field_step (SetPhone _) = 1"
| "field_step (SetCountryId _) = 2"
| "field_step (SetCityId _) = 2"
| "field_step (SetAddress _) = 2"
| "field_step (SetPostalCode _) = 2"
| "field_step (SetIndustryId _) = 3"
| "field_step (SetRoleId _) = 3"
| "field_step (SetExperienceId _) = 3"
| "field_step (SetExpectedSalary _) = 3"

subsection \<open>Validation (src/utils/validation.js)\<close>

datatype field_name =
    F_firstName | F_lastName | F_email | F_phone
  | F_countryId | F_cityId | F_address | F_postalCode
  | F_industryId | F_roleId | F_experienceId | F_expectedSalary

text \<open>
  The phone pattern \<open>/^\+?[\d\s-()]+$/\<close>: an optional plus sign, then one or more
  characters that are digits, white space, hyphen or parentheses. White space is the
  ASCII part of \<open>\s\<close>: space, tab, line feed, vertical tab, form feed, carriage return.
  The white space outside ASCII that the source's class also accepts (the no-break space
  among others) is not a byte and is rejected here.
\<close>

definition phone_char :: "char \<Rightarrow> bool" where
  "phone_char c =
     ((CHR ''0'' \<le> c \<and> c \<le> CHR ''9'')
      \<or> c = CHR '' '' \<or> c = CHR 0x09 \<or> c = CHR 0x0A \<or> c = CHR 0x0B \<or> c = CHR 0x0C \<or> c = CHR 0x0D
      \<or> c = CHR ''-'' \<or> c = CHR ''('' \<or> c = CHR '')'')"

definition phone_ok :: "string \<Rightarrow> bool" where
  "phone_ok s =
     (let rest = (case s of c # t \<Rightarrow> if c = CHR ''+'' then t else s | [] \<Rightarrow> s)
      in rest \<noteq> [] \<and> list_all phone_char rest)"

text \<open>One rule of a schema: the field, its message, and whether the value passes.\<close>

definition check :: "field_name \<Rightarrow> string \<Rightarrow> bool \<Rightarrow> (field_name \<times> string) list" where
  "check f msg ok = (if ok then [] else [(f, msg)])"

text \<open>
  The three step schemas. The pattern behind \<open>z.string().email\<close> belongs to the zod
  library; it is the parameter \<open>email_ok\<close>. The result lists every failing field with its
  message, and is empty when the schema accepts the values. The \<open>refine\<close> of
  \<open>professionalInfoSchema\<close> returns \<open>true\<close> for every input and adds no entry.
\<close>

definition personalInfoSchema :: "(string \<Rightarrow> bool) \<Rightarrow> form_values \<Rightarrow> (field_name \<times> string) list" where
  "personalInfoSchema email_ok v =
     check F_firstName ''First name must be at least 2 characters'' (length (firstName v) \<ge> 2)
   @ check F_lastName ''Last name must be at least 2 characters'' (length (lastName v) \<ge> 2)
   @ check F_email ''Invalid email address'' (email_ok (email v))
   @ check F_phone ''Invalid phone number'' (phone_ok (phone v))"

definition locationSchema :: "form_values \<Rightarrow> (field_name \<times> string) list" where
  "locationSchema v =
     check F_countryId ''Country is required'' (countryId v \<ge> 1)
   @ check F_cityId ''City is required'' (cityId v \<ge> 1)
   @ check F_address ''Address must be at least 5 characters'' (length (address v) \<ge> 5)
   @ check F_postalCode ''Postal code is required'' (length (postalCode v) \<ge> 3)"

definition professionalInfoSchema :: "form_values \<Rightarrow> (field_name \<times> string) list" where
  "professionalInfoSchema v =
     check F_industryId ''Industry is required'' (industryId v \<ge> 1)
   @ check F_roleId ''Role is required'' (roleId v \<ge> 1)
   @ check F_experienceId ''Experience level is required'' (experienceId v \<ge> 1)
   @ check F_expectedSalary ''Expected salary is required'' (expectedSalary v \<ge> 1)"

text \<open>
  \<open>getStepSchema\<close> applied to the values: the \<open>switch\<close> on \<open>step\<close> with its \<open>default\<close>.
  This is what \<open>trigger()\<close> and \<open>handleSubmit\<close> run through the resolver.
\<close>

definition validateStep :: "(string \<Rightarrow> bool) \<Rightarrow> int \<Rightarrow> form_values \<Rightarrow> (field_name \<times> string) list" where
  "validateStep email_ok stp v =
     (if stp = 1 then personalInfoSchema email_ok v
      else if stp = 2 then locationSchema v
      else if stp = 3 then professionalInfoSchema v
      else personalInfoSchema email_ok v)"

subsection \<open>Component state and the dependency effects\<close>

record form_state =
  step :: int
  formData :: form_values
  formValues :: form_values
  availableCities :: "option_item list"
  availableRoles :: "role_item list"
  selectedRole :: "role_item option"

text \<open>
  The first \<open>useEffect\<close> (lines 84 to 99), run when \<open>watchCountry\<close> has changed.
  \<open>watchCountry && watchCountry > 0\<close> is the truthiness of a number and the comparison;
  \<open>citiesByCountry[watchCountry] || []\<close> turns a missing key into the empty list;
  \<open>find\<close> yields the first match or \<open>undefined\<close>.
\<close>

definition countryEffect :: "form_state \<Rightarrow> form_state" where
  "countryEffect s =
     (let watchCountry = countryId (formValues s)
      in if watchCountry \<noteq> 0 \<and> watchCountry > 0
         then (let cities = (case citiesByCountry watchCountry of Some cs \<Rightarrow> cs | None \<Rightarrow> []);
                   s1 = s\<lparr>availableCities := cities\<rparr>;
                   currentCity = cityId (formValues s1);
                   cityExists = find (\<lambda>c. opt_id c = currentCity) cities
               in if cityExists = None \<and> currentCity \<noteq> 0
                  then s1\<lparr>formValues := (formValues s1)\<lparr>cityId := 0\<rparr>\<rparr>
                  else s1)
         else s\<lparr>availableCities := [], formValues := (formValues s)\<lparr>cityId := 0\<rparr>\<rparr>)"

text \<open>The second \<open>useEffect\<close> (lines 101 to 118), run when \<open>watchIndustry\<close> has changed.\<close>

definition industryEffect :: "form_state \<Rightarrow> form_state" where
  "industryEffect s =
     (let watchIndustry = industryId (formValues s)
      in if watchIndustry \<noteq> 0 \<and> watchIndustry > 0
         then (let roles = (case rolesByIndustry watchIndustry of Some rs \<Rightarrow> rs | None \<Rightarrow> []);
                   s1 = s\<lparr>availableRoles := roles\<rparr>;
                   currentRole = roleId (formValues s1);
                   roleExists = find (\<lambda>r. role_id r = currentRole) roles
               in if roleExists = None \<and> currentRole \<noteq> 0
                  then s1\<lparr>formValues := (formValues s1)\<lparr>roleId := 0\<rparr>, selectedRole := None\<rparr>
                  else s1)
         else s\<lparr>availableRoles := [], formValues := (formValues s)\<lparr>roleId := 0\<rparr>,
                 selectedRole := None\<rparr>)"

text \<open>
  The third \<open>useEffect\<close> (lines 120 to 127), run when \<open>watchRole\<close> or \<open>availableRoles\<close> has
  changed. \<open>undefined\<close> from \<open>find\<close> and \<open>null\<close> are both \<open>None\<close>: the component only tests
  \<open>selectedRole\<close> for truthiness.
\<close>

definition roleEffect :: "form_state \<Rightarrow> form_state" where
  "roleEffect s =
     (let watchRole = roleId (formValues s)
      in if watchRole \<noteq> 0 \<and> watchRole > 0
         then s\<lparr>selectedRole := find (\<lambda>r. role_id r = watchRole) (availableRoles s)\<rparr>
         else s\<lparr>selectedRole := None\<rparr>)"

text \<open>
  The effects that follow a change of the store, until the component is at rest. \<open>old\<close> is
  the store before the change. An effect runs when its dependency differs from the last
  render; the industry effect always hands a new array to \<open>setAvailableRoles\<close>, so the
  role effect runs after it.
\<close>

definition run_effects :: "form_values \<Rightarrow> form_state \<Rightarrow> form_state" where
  "run_effects old s =
     (let s1 = (if countryId (formValues s) \<noteq> countryId old then countryEffect s else s);
          industryChanged = (industryId (formValues s1) \<noteq> industryId old);
          s2 = (if industryChanged then industryEffect s1 else s1)
      in if industryChanged \<or> roleId (formValues s2) \<noteq> roleId old then roleEffect s2 else s2)"

text \<open>
  Mounting the component: \<open>init\<close> is \<open>{...defaults, ...initialData}\<close>; every effect runs
  once, and the role effect again once \<open>availableRoles\<close> has been set.
\<close>

definition mount :: "form_values \<Rightarrow> form_state" where
  "mount init =
     roleEffect (industryEffect (countryEffect
       \<lparr>step = 1, formData = init, formValues = init, availableCities = [],
        availableRoles = [], selectedRole = None\<rparr>))"

text \<open>
  \<open>setField\<close>: a \<open>Controller\<close>'s \<open>onChange\<close> stores the value, the component renders
  again and the effects above run.
\<close>

definition setField :: "field_update \<Rightarrow> form_state \<Rightarrow> form_state" where
  "setField u s = run_effects (formValues s) (s\<lparr>formValues := apply_update u (formValues s)\<rparr>)"

fun setFields :: "field_update list \<Rightarrow> form_state \<Rightarrow> form_state" where
  "setFields [] s = s"
| "setFields (u # us) s = setFields us (setField u s)"

text \<open>The \<open>disabled\<close> props of the two dependent dropdowns.\<close>

definition cityDisabled :: "form_state \<Rightarrow> bool" where
  "cityDisabled s = (countryId (formValues s) = 0 \<or> length (availableCities s) = 0)"

definition roleDisabled :: "form_state \<Rightarrow> bool" where
  "roleDisabled s = (industryId (formValues s) = 0 \<or> length (availableRoles s) = 0)"

text \<open>
  The allowed-option set computed afresh from a parent's value: what the effects put
  into \<open>availableCities\<close> and \<open>availableRoles\<close>.
\<close>

definition allowedCities :: "int \<Rightarrow> option_item list" where
  "allowedCities country =
     (if country \<noteq> 0 \<and> country > 0
      then (case citiesByCountry country of Some cs \<Rightarrow> cs | None \<Rightarrow> [])
      else [])"

definition allowedRoles :: "int \<Rightarrow> role_item list" where
  "allowedRoles industry =
     (if industry \<noteq> 0 \<and> industry > 0
      then (case rolesByIndustry industry of Some rs \<Rightarrow> rs | None \<Rightarrow> [])
      else [])"

text \<open>The invariant of the dependency edges, on the store of a state.\<close>

definition dependents_ok :: "form_state \<Rightarrow> bool" where
  "dependents_ok s =
     ((cityId (formValues s) = 0
        \<or> cityId (formValues s) \<in> set (map opt_id (allowedCities (countryId (formValues s)))))
      \<and> (roleId (formValues s) = 0
        \<or> roleId (formValues s) \<in> set (map role_id (allowedRoles (industryId (formValues s))))))"

text \<open>
  The \<open>onChange\<close> of a dependent field is the \<open>onSelect\<close> of its \<open>CustomDropdown\<close>, which
  is called by \<open>handleSelect(option)\<close> alone, with \<open>option.id\<close> of an item of
  \<open>options = availableCities\<close> (\<open>availableRoles\<close>). \<open>offered s u\<close> says that the update
  \<open>u\<close>, when it sets a dependent field, carries the id of an option listed in state \<open>s\<close>.
  The other updates are left free, to any value of the field's type.
\<close>

fun offered :: "form_state \<Rightarrow> field_update \<Rightarrow> bool" where
  "offered s (SetCityId x) = (x \<in> set (map opt_id (availableCities s)))"
| "offered s (SetRoleId x) = (x \<in> set (map role_id (availableRoles s)))"
| "offered s _ = True"

fun all_offered :: "form_state \<Rightarrow> field_update list \<Rightarrow> bool" where
  "all_offered s [] = True"
| "all_offered s (u # us) = (offered s u \<and> all_offered (setField u s) us)"

subsection \<open>Navigation, draft and submission handlers\<close>

text \<open>
  What a handler hands to its surroundings: an alert, the errors that the resolver puts
  into \<open>formState.errors\<close>, or a call of one of the component's callbacks. The salary
  message is kept as its two parameters, the role's name and its minimum; the source
  renders the minimum with \<open>toLocaleString\<close>.
\<close>

datatype message = Text string | MinimumSalaryFor string int

datatype emitted =
    Alert message
  | Errors "(field_name \<times> string) list"
  | OnSubmit form_values
  | OnSaveDraft form_values

text \<open>
  \<open>{ ...formData, ...currentValues }\<close>: the later object wins on every key it has, and
  \<open>watch()\<close> returns all twelve fields.
\<close>

definition spread :: "form_values \<Rightarrow> form_values \<Rightarrow> form_values" where
  "spread fd currentValues = currentValues"

text \<open>
  \<open>salaryError\<close> (lines 133 to 135): \<open>selectedRole && watchSalary && watchSalary < selectedRole.minSalary\<close>,
  with the truthiness of an object reference and of a number.
\<close>

definition salaryError :: "form_state \<Rightarrow> message option" where
  "salaryError s =
     (case selectedRole s of
        None \<Rightarrow> None
      | Some r \<Rightarrow>
          (let watchSalary = expectedSalary (formValues s)
           in if watchSalary \<noteq> 0 \<and> watchSalary < minSalary r
              then Some (MinimumSalaryFor (role_name r) (minSalary r))
              else None))"

text \<open>\<open>handleNext\<close> (lines 137 to 153); \<open>trigger()\<close> validates with the current step's schema.\<close>

definition handleNext :: "(string \<Rightarrow> bool) \<Rightarrow> form_state \<Rightarrow> form_state \<times> emitted list" where
  "handleNext email_ok s =
     (let errs = validateStep email_ok (step s) (formValues s);
          isValid = (errs = [])
      in if \<not> isValid
         then (s, [Errors errs, Alert (Text ''Please fix the errors before continuing'')])
         else (s\<lparr>formData := spread (formData s) (formValues s), step := step s + 1\<rparr>, []))"

text \<open>\<open>handlePrevious\<close> (lines 155 to 159).\<close>

definition handlePrevious :: "form_state \<Rightarrow> form_state" where
  "handlePrevious s = s\<lparr>formData := spread (formData s) (formValues s), step := step s - 1\<rparr>"

text \<open>The form's \<open>handleSaveDraft\<close> (lines 161 to 165), which calls \<open>onSaveDraft\<close>.\<close>

definition form_handleSaveDraft :: "form_state \<Rightarrow> form_state \<times> emitted list" where
  "form_handleSaveDraft s = (s, [OnSaveDraft (spread (formData s) (formValues s))])"

text \<open>
  The \<open>data\<close> that \<open>handleSubmit\<close> passes on is the resolver's parsed object, which has the
  keys of the current step's schema only; \<open>{ ...formData, ...data }\<close> therefore takes
  those fields from the store and the others from \<open>formData\<close>.
\<close>

definition merge_parsed :: "int \<Rightarrow> form_values \<Rightarrow> form_values \<Rightarrow> form_values" where
  "merge_parsed stp fd v =
     (if stp = 2
      then fd\<lparr>countryId := countryId v, cityId := cityId v, address := address v,
              postalCode := postalCode v\<rparr>
      else if stp = 3
      then fd\<lparr>industryId := industryId v, roleId := roleId v, experienceId := experienceId v,
              expectedSalary := expectedSalary v\<rparr>
      else fd\<lparr>firstName := firstName v, lastName := lastName v, email := email v,
              phone := phone v\<rparr>)"

text \<open>\<open>handleFinalSubmit\<close> (lines 167 to 179).\<close>

definition handleFinalSubmit :: "form_state \<Rightarrow> form_state \<times> emitted list" where
  "handleFinalSubmit s =
     (case salaryError s of
        Some m \<Rightarrow> (s, [Alert m])
      | None \<Rightarrow> (s, [OnSubmit (merge_parsed (step s) (formData s) (formValues s))]))"

text \<open>
  \<open>submit\<close>: the button's \<open>handleSubmit(handleFinalSubmit)\<close>. The resolver runs first;
  only when it reports no error is \<open>handleFinalSubmit\<close> called.
\<close>

definition submit :: "(string \<Rightarrow> bool) \<Rightarrow> form_state \<Rightarrow> form_state \<times> emitted list" where
  "submit email_ok s =
     (let errs = validateStep email_ok (step s) (formValues s)
      in if errs \<noteq> [] then (s, [Errors errs]) else handleFinalSubmit s)"

text \<open>
  What the rendered form lets a user do. A step's block renders the \<open>Controller\<close>s of
  that step only; the Next button is rendered while \<open>step < 3\<close> and the Previous button
  while \<open>step > 1\<close>. An event whose control is not rendered leaves the state as it is.
\<close>

datatype event = Change field_update | Next | Previous

fun ui_event :: "(string \<Rightarrow> bool) \<Rightarrow> event \<Rightarrow> form_state \<Rightarrow> form_state" where
  "ui_event email_ok (Change u) s = (if field_step u = step s then setField u s else s)"
| "ui_event email_ok Next s = (if step s < 3 then fst (handleNext email_ok s) else s)"
| "ui_event email_ok Previous s = (if step s > 1 then handlePrevious s else s)"

fun run_events :: "(string \<Rightarrow> bool) \<Rightarrow> event list \<Rightarrow> form_state \<Rightarrow> form_state" where
  "run_events email_ok [] s = s"
| "run_events email_ok (e # es) s = run_events email_ok es (ui_event email_ok e s)"

text \<open>
  Every step below the current one passes its schema, and the step is one of the three.
  This holds of every state that the rendered form reaches (lemma
  \<open>run_events_earlier_steps_valid\<close>).
\<close>

definition earlier_steps_valid :: "(string \<Rightarrow> bool) \<Rightarrow> form_state \<Rightarrow> bool" where
  "earlier_steps_valid email_ok s =
     (1 \<le> step s \<and> step s \<le> 3
      \<and> (2 \<le> step s \<longrightarrow> validateStep email_ok 1 (formValues s) = [])
      \<and> (3 \<le> step s \<longrightarrow> validateStep email_ok 2 (formValues s) = []))"

text \<open>
  The derived state agrees with the store: \<open>availableRoles\<close> is the list of the current
  industry, and \<open>selectedRole\<close> is the role of that list whose id is the current \<open>roleId\<close>
  (none when \<open>roleId\<close> is unset or not in the list). This holds of every state that the
  rendered form reaches (lemma \<open>run_events_selection_settled\<close>).
\<close>

definition selection_settled :: "form_state \<Rightarrow> bool" where
  "selection_settled s =
     (availableRoles s = allowedRoles (industryId (formValues s))
      \<and> selectedRole s =
          (if 0 < roleId (formValues s)
           then find (\<lambda>r. role_id r = roleId (formValues s))
                  (allowedRoles (industryId (formValues s)))
           else None))"

section \<open>Draft store (App.js)\<close>

text \<open>
  A saved draft: the form's data with \<open>id\<close>, \<open>status\<close> and \<open>savedAt\<close> written over it.
  \<open>savedAt\<close> is the reading of the clock in milliseconds, which the source renders with
  \<open>toISOString\<close>.
\<close>

record draft =
  d_data :: form_values
  d_id :: int
  d_status :: string
  d_savedAt :: int

text \<open>The part of the \<open>App\<close> state that \<open>handleSaveDraft\<close> reads and writes.\<close>

record app_state =
  editingApplication :: "application option"
  savedDrafts :: "draft list"

definition initial_app :: app_state where
  "initial_app = \<lparr>editingApplication = None, savedDrafts = []\<rparr>"

text \<open>\<open>Array.prototype.findIndex\<close>: the first index whose element passes, or \<open>-1\<close>.\<close>

fun findIndex :: "('a \<Rightarrow> bool) \<Rightarrow> 'a list \<Rightarrow> int" where
  "findIndex P [] = - 1"
| "findIndex P (x # xs) =
     (if P x then 0 else (let i = findIndex P xs in if i \<ge> 0 then i + 1 else - 1))"

text \<open>
  The object \<open>draft\<close> of \<open>handleSaveDraft\<close> (lines 46 to 51). \<open>now\<close> is the reading of
  \<open>Date.now()\<close> and \<open>savedNow\<close> that of \<open>new Date()\<close>. \<open>editingApplication?.id || Date.now()\<close>
  takes the clock when there is no application being edited or its id is \<open>0\<close>.
\<close>

definition new_draft :: "application option \<Rightarrow> form_values \<Rightarrow> int \<Rightarrow> int \<Rightarrow> draft" where
  "new_draft editing data now savedNow =
     \<lparr>d_data = data,
      d_id = (case editing of
                None \<Rightarrow> now
              | Some a \<Rightarrow> if app_id a \<noteq> 0 then app_id a else now),
      d_status = ''draft'',
      d_savedAt = savedNow\<rparr>"

text \<open>The updater given to \<open>setSavedDrafts\<close> (lines 53 to 61).\<close>

definition store_draft :: "draft \<Rightarrow> draft list \<Rightarrow> draft list" where
  "store_draft d prev =
     (let existingIndex = findIndex (\<lambda>x. d_id x = d_id d) prev
      in if existingIndex \<ge> 0 then prev[nat existingIndex := d] else prev @ [d])"

definition handleSaveDraft :: "form_values \<Rightarrow> int \<Rightarrow> int \<Rightarrow> app_state \<Rightarrow> app_state" where
  "handleSaveDraft data now savedNow st =
     st\<lparr>savedDrafts := store_draft (new_draft (editingApplication st) data now savedNow)
                          (savedDrafts st)\<rparr>"

text \<open>\<open>handleEditApplication\<close>, and the New Application button, which clears the edit.\<close>

definition handleEditApplication :: "application \<Rightarrow> app_state \<Rightarrow> app_state" where
  "handleEditApplication a st = st\<lparr>editingApplication := Some a\<rparr>"

definition newApplication :: "app_state \<Rightarrow> app_state" where
  "newApplication st = st\<lparr>editingApplication := None\<rparr>"

text \<open>
  What happens to the store during a session: a draft is saved (with its data and its two
  clock readings), an application of the list is opened for editing, or a new application
  is started.
\<close>

datatype app_event = SaveDraft form_values int int | Edit application | New

fun app_step :: "app_event \<Rightarrow> app_state \<Rightarrow> app_state" where
  "app_step (SaveDraft data now savedNow) st = handleSaveDraft data now savedNow st"
| "app_step (Edit a) st = handleEditApplication a st"
| "app_step New st = newApplication st"

fun run_app :: "app_event list \<Rightarrow> app_state \<Rightarrow> app_state" where
  "run_app [] st = st"
| "run_app (e # es) st = run_app es (app_step e st)"

section \<open>Properties of the list view engine\<close>

lemma length_insert_by: "length (insert_by cmp x ys) = Suc (length ys)"
  by (induction ys) simp_all

lemma length_foldl_insert_by:
  "length (foldl (\<lambda>acc x. insert_by cmp x acc) acc xs) = length acc + length xs"
  by (induction xs arbitrary: acc) (simp_all add: length_insert_by)

lemma length_insertion_sort: "length (insertion_sort cmp xs) = length xs"
  by (simp add: insertion_sort_def length_foldl_insert_by)

lemma js_slice_Nil: "js_slice [] a b = []"
  by (simp add: js_slice_def Let_def)

lemma totalPages_div: "totalPages xs = (int (length xs) + 4) div 5"
proof -
  have "\<lceil>real (length xs) / 5\<rceil> = \<lceil>real_of_int (int (length xs)) / real_of_int 5\<rceil>"
    by simp
  also have "\<dots> = - (- int (length xs) div 5)"
    by (rule ceiling_divide_eq_div)
  also have "\<dots> = (int (length xs) + 4) div 5"
    by presburger
  finally show ?thesis
    by (simp add: totalPages_def itemsPerPage_def)
qed

lemma totalPages_zero_iff: "totalPages xs = 0 \<longleftrightarrow> xs = []"
proof -
  have "(int (length xs) + 4) div 5 = 0 \<longleftrightarrow> length xs = 0"
    by presburger
  then show ?thesis
    by (simp add: totalPages_div)
qed

text \<open>
  Claim C1, as the code has it. For every engine whose sort keeps the length of its
  input: when the status filter matches no record of the collection, \<open>derive\<close> yields the
  empty slice, the count \<open>0\<close> and \<open>totalPages = 0\<close> (not \<open>1\<close>), and raises nothing. In
  general the count is the number of records that pass the filter (all of them under
  \<open>all\<close>), and \<open>totalPages\<close> is the ceiling of that number over the page size, with no
  floor at \<open>1\<close>: it is \<open>0\<close> exactly when no record passes the filter.
\<close>

theorem derive_totalPages:
  assumes len: "\<forall>cmp xs. length (sort_impl cmp xs) = length xs"
  shows "(filterStatus v \<noteq> ''all''
            \<and> filter (\<lambda>a. app_status a = filterStatus v) (applications v) = []
            \<longrightarrow> derive sort_impl v = ([], 0, 0))
       \<and> fst (snd (derive sort_impl v))
            = length (if filterStatus v \<noteq> ''all''
                      then filter (\<lambda>a. app_status a = filterStatus v) (applications v)
                      else applications v)
       \<and> snd (snd (derive sort_impl v))
            = \<lceil>real (length (if filterStatus v \<noteq> ''all''
                      then filter (\<lambda>a. app_status a = filterStatus v) (applications v)
                      else applications v)) / real_of_int itemsPerPage\<rceil>
       \<and> (snd (snd (derive sort_impl v)) = 0 \<longleftrightarrow>
            (if filterStatus v \<noteq> ''all''
             then filter (\<lambda>a. app_status a = filterStatus v) (applications v)
             else applications v) = [])"
proof -
  let ?filtered = "if filterStatus v \<noteq> ''all''
                   then filter (\<lambda>a. app_status a = filterStatus v) (applications v)
                   else applications v"
  let ?sorted = "sort_impl (compareFn (sortField v) (sortDirection v)) ?filtered"
  have d: "derive sort_impl v
            = (paginatedData ?sorted (currentPage v), length ?sorted, totalPages ?sorted)"
    by (simp add: derive_def sortedAndFilteredData_def Let_def)
  have l: "length ?sorted = length ?filtered"
    using len by blast
  have nil: "?filtered = [] \<Longrightarrow> ?sorted = []"
    using l by simp
  have a: "filterStatus v \<noteq> ''all''
            \<and> filter (\<lambda>a. app_status a = filterStatus v) (applications v) = []
            \<longrightarrow> derive sort_impl v = ([], 0, 0)"
  proof
    assume h: "filterStatus v \<noteq> ''all''
            \<and> filter (\<lambda>a. app_status a = filterStatus v) (applications v) = []"
    then have "?filtered = []" by simp
    from nil [OF this] show "derive sort_impl v = ([], 0, 0)"
      unfolding d by (simp add: paginatedData_def js_slice_Nil totalPages_def Let_def)
  qed
  have b: "fst (snd (derive sort_impl v)) = length ?filtered"
    unfolding d using l by simp
  have c: "snd (snd (derive sort_impl v))
            = \<lceil>real (length ?filtered) / real_of_int itemsPerPage\<rceil>"
    unfolding d using l by (simp add: totalPages_def)
  have e: "snd (snd (derive sort_impl v)) = 0 \<longleftrightarrow> ?filtered = []"
  proof -
    have "totalPages ?sorted = 0 \<longleftrightarrow> ?sorted = []"
      by (rule totalPages_zero_iff)
    also have "\<dots> \<longleftrightarrow> length ?sorted = 0"
      by simp
    also have "\<dots> \<longleftrightarrow> ?filtered = []"
      unfolding l by simp
    finally show ?thesis
      unfolding d by simp
  qed
  from a b c e show ?thesis by blast
qed

text \<open>
  The theorem under the reference engine: a collection of one submitted record filtered
  to \<open>draft\<close>; the collection of the source filtered to \<open>submitted\<close>, three records on one
  page; and that collection twice over, ten records on two pages.
\<close>

theorem derive_totalPages_witness:
  "derive insertion_sort (setFilter ''draft'' (initial_view (take 1 mockApplications))) = ([], 0, 0)
   \<and> filter (\<lambda>a. app_status a = ''draft'') (take 1 mockApplications) = []
   \<and> snd (derive insertion_sort (setFilter ''submitted'' (initial_view mockApplications))) = (3, 1)
   \<and> snd (derive insertion_sort (initial_view (mockApplications @ mockApplications))) = (10, 2)"
proof -
  have f: "filter (\<lambda>a. app_status a = ''draft'') (take 1 mockApplications) = []"
    by (simp add: mockApplications_def)
  have g: "length (filter (\<lambda>a. app_status a = ''submitted'') mockApplications) = 3"
    by (simp add: mockApplications_def)
  have h: "length mockApplications = 5"
    by (simp add: mockApplications_def)
  have len: "\<forall>cmp xs. length (insertion_sort cmp xs) = length (xs :: application list)"
    by (simp add: length_insertion_sort)
  have p1: "derive insertion_sort (setFilter ''draft'' (initial_view (take 1 mockApplications)))
             = ([], 0, 0)"
    using derive_totalPages [OF len, of "setFilter ''draft'' (initial_view (take 1 mockApplications))"] f
    by (simp add: setFilter_def initial_view_def)
  have p2: "snd (derive insertion_sort (setFilter ''submitted'' (initial_view mockApplications)))
             = (3, 1)"
    using derive_totalPages [OF len, of "setFilter ''submitted'' (initial_view mockApplications)"] g
    by (simp add: setFilter_def initial_view_def itemsPerPage_def prod_eq_iff)
  have p3: "snd (derive insertion_sort (initial_view (mockApplications @ mockApplications)))
             = (10, 2)"
    using derive_totalPages [OF len, of "initial_view (mockApplications @ mockApplications)"] h
    by (simp add: initial_view_def itemsPerPage_def prod_eq_iff)
  from p1 f p2 p3 show ?thesis by blast
qed

text \<open>
  Claim C1 as it is worded fails there: no record is a draft, and \<open>totalPages\<close> is not \<open>1\<close>.
\<close>

theorem empty_filter_totalPages_counterexample:
  "\<not> (snd (snd (derive insertion_sort
          (setFilter ''draft'' (initial_view (take 1 mockApplications))))) = 1)"
  by (simp add: derive_def setFilter_def initial_view_def sortedAndFilteredData_def
      mockApplications_def insertion_sort_def totalPages_def Let_def)

text \<open>
  Claim C9. \<open>setFilter\<close> stores the status and puts the page number back to \<open>1\<close>.
  \<open>handleSort\<close> leaves the page number and the filter as they are; it makes the clicked
  field the sort field, with the direction flipped when the field was already the sort
  field and ascending otherwise.
\<close>

theorem setFilter_handleSort_page:
  "currentPage (setFilter status v) = 1
   \<and> filterStatus (setFilter status v) = status
   \<and> currentPage (handleSort field v) = currentPage v
   \<and> filterStatus (handleSort field v) = filterStatus v
   \<and> sortField (handleSort field v) = field
   \<and> sortDirection (handleSort field v)
       = (if sortField v = field then (if sortDirection v = Asc then Desc else Asc) else Asc)"
  by (simp add: setFilter_def handleSort_def)

text \<open>
  The theorem on page 2 of the initial view: a filter brings the page back to \<open>1\<close>, a
  click on the active column \<open>createdAt\<close> turns descending into ascending on page 2, and
  a click on \<open>salary\<close> selects it ascending on page 2.
\<close>

theorem setFilter_handleSort_page_witness:
  "currentPage (setFilter ''draft'' ((initial_view mockApplications)\<lparr>currentPage := 2\<rparr>)) = 1
   \<and> currentPage (handleSort FieldCreatedAt ((initial_view mockApplications)\<lparr>currentPage := 2\<rparr>)) = 2
   \<and> sortDirection (handleSort FieldCreatedAt ((initial_view mockApplications)\<lparr>currentPage := 2\<rparr>)) = Asc
   \<and> sortDirection (handleSort FieldSalary ((initial_view mockApplications)\<lparr>currentPage := 2\<rparr>)) = Asc
   \<and> sortField (handleSort FieldSalary ((initial_view mockApplications)\<lparr>currentPage := 2\<rparr>)) = FieldSalary"
  using setFilter_handleSort_page [of "''draft''" "(initial_view mockApplications)\<lparr>currentPage := 2\<rparr>" FieldCreatedAt]
        setFilter_handleSort_page [of "''draft''" "(initial_view mockApplications)\<lparr>currentPage := 2\<rparr>" FieldSalary]
  by (simp add: initial_view_def)

section \<open>The sort comparator\<close>

subsection \<open>The reference engine is the stable sort for a consistent comparator\<close>

lemma set_insert_by: "set (insert_by cmp x ys) = insert x (set ys)"
  by (induction ys) auto

lemma mset_insert_by: "mset (insert_by cmp x ys) = add_mset x (mset ys)"
  by (induction ys) simp_all

lemma sorted_insert_by:
  fixes key :: "'a \<Rightarrow> 'k::linorder"
  assumes c: "\<And>x y. (cmp x y < 0) = (key x < key y)"
  shows "sorted (map key ys) \<Longrightarrow> sorted (map key (insert_by cmp x ys))"
  by (induction ys) (auto simp: c set_insert_by)

lemma filter_insert_by:
  fixes key :: "'a \<Rightarrow> 'k::linorder"
  assumes c: "\<And>x y. (cmp x y < 0) = (key x < key y)"
  shows "sorted (map key ys) \<Longrightarrow>
     filter (\<lambda>z. k = key z) (insert_by cmp x ys)
       = filter (\<lambda>z. k = key z) ys @ (if k = key x then [x] else [])"
proof (induction ys)
  case Nil
  then show ?case by simp
next
  case (Cons y ys)
  show ?case
  proof (cases "key x < key y")
    case True
    show ?thesis
    proof (cases "k = key x")
      case eq: True
      have "\<forall>z\<in>set (y # ys). k \<noteq> key z"
        using True eq Cons.prems by auto
      then have "filter (\<lambda>z. k = key z) (y # ys) = []"
        by (simp only: filter_empty_conv)
      with True eq show ?thesis
        by (simp add: c)
    next
      case False
      with True show ?thesis
        by (simp add: c)
    qed
  next
    case False
    from Cons.prems have "sorted (map key ys)"
      by simp
    from Cons.IH [OF this] False show ?thesis
      by (auto simp: c)
  qed
qed

lemma foldl_insert_by_props:
  fixes key :: "'a \<Rightarrow> 'k::linorder"
  assumes c: "\<And>x y. (cmp x y < 0) = (key x < key y)"
  shows "sorted (map key acc) \<Longrightarrow>
     sorted (map key (foldl (\<lambda>acc x. insert_by cmp x acc) acc xs))
     \<and> mset (foldl (\<lambda>acc x. insert_by cmp x acc) acc xs) = mset acc + mset xs
     \<and> filter (\<lambda>z. k = key z) (foldl (\<lambda>acc x. insert_by cmp x acc) acc xs)
         = filter (\<lambda>z. k = key z) acc @ filter (\<lambda>z. k = key z) xs"
proof (induction xs arbitrary: acc)
  case Nil
  then show ?case by simp
next
  case (Cons x xs)
  from sorted_insert_by [OF c Cons.prems] have s: "sorted (map key (insert_by cmp x acc))" .
  from Cons.IH [OF s] filter_insert_by [OF c Cons.prems, of k x] show ?case
    by (simp add: mset_insert_by)
qed

text \<open>
  With a comparator that is negative exactly when the first key is smaller, the reference
  engine is the stable sort by that key: sorted, a permutation, and the records of each
  key in their original order.
\<close>

lemma insertion_sort_stable:
  fixes key :: "'a \<Rightarrow> 'k::linorder"
  assumes c: "\<And>x y. (cmp x y < 0) = (key x < key y)"
  shows "insertion_sort cmp xs = sort_key key xs"
proof -
  have s: "sorted (map key ([]::'a list))"
    by simp
  note p = foldl_insert_by_props [OF c s]
  show ?thesis
  proof (rule properties_for_sort_key [symmetric])
    show "mset (insertion_sort cmp xs) = mset xs"
      using p by (simp add: insertion_sort_def)
    show "\<And>k. k \<in> set (insertion_sort cmp xs) \<Longrightarrow>
       filter (\<lambda>x. key k = key x) (insertion_sort cmp xs) = filter (\<lambda>x. key k = key x) xs"
      using p by (simp add: insertion_sort_def)
    show "sorted (map key (insertion_sort cmp xs))"
      using p by (simp add: insertion_sort_def)
  qed
qed

lemma compareFn_spec_status_consistent:
  "(compareFn_spec FieldStatus Asc a b < 0)
     = (toLowerCase (app_status a) < toLowerCase (app_status b))"
  by (auto simp: compareFn_spec_def Let_def)

lemma spec_sort_is_stable:
  "insertion_sort (compareFn_spec FieldStatus Asc) xs
     = sort_key (\<lambda>a. toLowerCase (app_status a)) xs"
  by (rule insertion_sort_stable) (rule compareFn_spec_status_consistent)

subsection \<open>The comparator of the source\<close>

text \<open>The comparator sees a record only through its case-folded key.\<close>

lemma compareFn_case_insensitive:
  "fold_case (get_field f a) = fold_case (get_field f a') \<Longrightarrow>
   fold_case (get_field f b) = fold_case (get_field f b') \<Longrightarrow>
     compareFn f d a b = compareFn f d a' b'"
  by (simp add: compareFn_def Let_def)

lemma compareFn_never_zero: "compareFn f d a b = 1 \<or> compareFn f d a b = - 1"
  by (simp add: compareFn_def Let_def)

lemma js_gt_irrefl: "\<not> js_gt x x"
  by (cases x) simp_all

lemma js_lt_irrefl: "\<not> js_lt x x"
  by (cases x) simp_all

text \<open>
  On a tie it answers \<open>-1\<close> whichever record comes first: each of two records with equal
  keys is said to precede the other.
\<close>

lemma compareFn_tie:
  "fold_case (get_field f a) = fold_case (get_field f b) \<Longrightarrow>
     compareFn f d a b = - 1 \<and> compareFn f d b a = - 1"
  by (simp add: compareFn_def Let_def js_gt_irrefl js_lt_irrefl)

text \<open>
  Claim C4 at the collection of the source, sorted by \<open>status\<close> ascending with the filter
  \<open>all\<close> (a click on the Status header). The first and the third record are both
  \<open>submitted\<close>, and the comparator answers \<open>-1\<close> for them in either order. Under the
  reference engine the records of equal status come out in reversed order, ids
  \<open>[5, 2, 4, 3, 1]\<close>; the stable sort by the case-folded status, which is also what the
  engine gives with the comparator of the specification, is \<open>[2, 5, 1, 3, 4]\<close>.
\<close>

theorem status_sort_reverses_ties:
  "compareFn FieldStatus Asc (mockApplications ! 0) (mockApplications ! 2) = - 1
   \<and> compareFn FieldStatus Asc (mockApplications ! 2) (mockApplications ! 0) = - 1
   \<and> map app_id (sortedAndFilteredData insertion_sort mockApplications FieldStatus Asc ''all'')
        = [5, 2, 4, 3, 1]
   \<and> map app_id (insertion_sort (compareFn_spec FieldStatus Asc) mockApplications)
        = [2, 5, 1, 3, 4]
   \<and> map app_id (sort_key (\<lambda>a. toLowerCase (app_status a)) mockApplications)
        = [2, 5, 1, 3, 4]"
  by code_simp

section \<open>Properties of the draft store\<close>

lemma findIndex_ge0_iff: "findIndex P xs \<ge> 0 \<longleftrightarrow> (\<exists>x\<in>set xs. P x)"
  by (induction xs) (auto simp: Let_def)

lemma findIndex_hit:
  "findIndex P xs \<ge> 0 \<Longrightarrow> nat (findIndex P xs) < length xs \<and> P (xs ! nat (findIndex P xs))"
proof (induction xs)
  case Nil
  then show ?case by simp
next
  case (Cons x xs)
  show ?case
  proof (cases "P x")
    case True
    then show ?thesis by simp
  next
    case False
    with Cons.prems have ge: "findIndex P xs \<ge> 0"
      by (simp add: Let_def split: if_splits)
    with Cons.IH have ih: "nat (findIndex P xs) < length xs \<and> P (xs ! nat (findIndex P xs))"
      by simp
    from False ge have eq: "findIndex P (x # xs) = findIndex P xs + 1"
      by (simp add: Let_def)
    from ge have "nat (findIndex P xs + 1) = Suc (nat (findIndex P xs))"
      by simp
    with ih eq show ?thesis by simp
  qed
qed

lemma store_draft_replace:
  assumes "d_id d \<in> d_id ` set prev"
  shows "\<exists>i < length prev. d_id (prev ! i) = d_id d \<and> store_draft d prev = prev[i := d]"
proof -
  let ?i = "findIndex (\<lambda>x. d_id x = d_id d) prev"
  from assms have ge: "?i \<ge> 0"
    by (auto simp: findIndex_ge0_iff)
  from findIndex_hit [OF ge] have "nat ?i < length prev" "d_id (prev ! nat ?i) = d_id d"
    by simp_all
  moreover from ge have "store_draft d prev = prev[nat ?i := d]"
    by (simp add: store_draft_def Let_def)
  ultimately show ?thesis by blast
qed

lemma store_draft_append:
  assumes "d_id d \<notin> d_id ` set prev"
  shows "store_draft d prev = prev @ [d]"
proof -
  from assms have "\<not> (\<exists>x\<in>set prev. d_id x = d_id d)"
    by (metis imageI)
  then have "\<not> findIndex (\<lambda>x. d_id x = d_id d) prev \<ge> 0"
    by (simp only: findIndex_ge0_iff not_False_eq_True)
  then show ?thesis
    by (simp add: store_draft_def Let_def)
qed

lemma map_id_store_draft:
  "map d_id (store_draft d prev) =
     (if d_id d \<in> d_id ` set prev then map d_id prev else map d_id prev @ [d_id d])"
proof (cases "d_id d \<in> d_id ` set prev")
  case True
  from store_draft_replace [OF True] obtain i where
    i: "i < length prev" "d_id (prev ! i) = d_id d" "store_draft d prev = prev[i := d]"
    by blast
  then have "map d_id (store_draft d prev) = (map d_id prev)[i := d_id (prev ! i)]"
    by (simp add: map_update)
  also from i(1) have "\<dots> = map d_id prev"
    by (metis length_map list_update_id nth_map)
  finally show ?thesis using True by simp
next
  case False
  then show ?thesis by (simp add: store_draft_append)
qed

lemma distinct_store_draft:
  "distinct (map d_id prev) \<Longrightarrow> distinct (map d_id (store_draft d prev))"
  by (simp add: map_id_store_draft)

lemma mem_store_draft: "d \<in> set (store_draft d prev)"
proof (cases "d_id d \<in> d_id ` set prev")
  case True
  from store_draft_replace [OF True] obtain i where
    "i < length prev" "store_draft d prev = prev[i := d]"
    by blast
  then show ?thesis by (simp add: set_update_memI)
next
  case False
  then show ?thesis by (simp add: store_draft_append)
qed

lemma distinct_app_step:
  "distinct (map d_id (savedDrafts st)) \<Longrightarrow> distinct (map d_id (savedDrafts (app_step e st)))"
  by (cases e) (simp_all add: handleSaveDraft_def handleEditApplication_def newApplication_def
      distinct_store_draft)

lemma distinct_run_app:
  "distinct (map d_id (savedDrafts st)) \<Longrightarrow> distinct (map d_id (savedDrafts (run_app es st)))"
  by (induction es arbitrary: st) (simp_all add: distinct_app_step)

text \<open>
  Claim C10. After any run of saves, edits and new applications from the empty store,
  no two stored drafts have the same identifier. A save whose identifier is already
  stored replaces the record at its index and keeps the length and the identifiers of
  the collection; a save with an identifier not yet stored appends the draft.
\<close>

theorem savedDrafts_one_record_per_id:
  "distinct (map d_id (savedDrafts (run_app es initial_app)))
   \<and> (d_id d \<in> d_id ` set prev \<longrightarrow>
        length (store_draft d prev) = length prev
        \<and> map d_id (store_draft d prev) = map d_id prev
        \<and> (\<exists>i < length prev. d_id (prev ! i) = d_id d \<and> store_draft d prev = prev[i := d]))
   \<and> (d_id d \<notin> d_id ` set prev \<longrightarrow> store_draft d prev = prev @ [d])"
proof -
  have a: "distinct (map d_id (savedDrafts (run_app es initial_app)))"
    by (rule distinct_run_app) (simp add: initial_app_def)
  have b: "d_id d \<in> d_id ` set prev \<longrightarrow>
        length (store_draft d prev) = length prev
        \<and> map d_id (store_draft d prev) = map d_id prev
        \<and> (\<exists>i < length prev. d_id (prev ! i) = d_id d \<and> store_draft d prev = prev[i := d])"
  proof
    assume h: "d_id d \<in> d_id ` set prev"
    from store_draft_replace [OF h] obtain i where
      i: "i < length prev" "d_id (prev ! i) = d_id d" "store_draft d prev = prev[i := d]"
      by blast
    have "length (store_draft d prev) = length prev"
      using i(3) by simp
    moreover have "map d_id (store_draft d prev) = map d_id prev"
      using h by (simp add: map_id_store_draft)
    ultimately show "length (store_draft d prev) = length prev
        \<and> map d_id (store_draft d prev) = map d_id prev
        \<and> (\<exists>i < length prev. d_id (prev ! i) = d_id d \<and> store_draft d prev = prev[i := d])"
      using i by blast
  qed
  have c: "d_id d \<notin> d_id ` set prev \<longrightarrow> store_draft d prev = prev @ [d]"
    by (simp add: store_draft_append)
  from a b c show ?thesis by blast
qed

text \<open>
  The theorem on a session: the second mock application is opened and saved twice (one
  record, identifier \<open>2\<close>), then a new application is saved (identifier \<open>3000\<close>). The
  second save replaces the first draft in a store of one; the save of the new
  application is appended to it.
\<close>

theorem savedDrafts_one_record_per_id_witness:
  "map d_id (savedDrafts (run_app
       [Edit (mockApplications ! 1), SaveDraft default_values 1000 1001,
        SaveDraft (default_values\<lparr>firstName := ''Jane''\<rparr>) 2000 2001, New,
        SaveDraft default_values 3000 3001] initial_app)) = [2, 3000]
   \<and> distinct (map d_id (savedDrafts (run_app
       [Edit (mockApplications ! 1), SaveDraft default_values 1000 1001,
        SaveDraft (default_values\<lparr>firstName := ''Jane''\<rparr>) 2000 2001, New,
        SaveDraft default_values 3000 3001] initial_app)))
   \<and> store_draft (new_draft (Some (mockApplications ! 1)) (default_values\<lparr>firstName := ''Jane''\<rparr>) 2000 2001)
        [new_draft (Some (mockApplications ! 1)) default_values 1000 1001]
       = [new_draft (Some (mockApplications ! 1)) (default_values\<lparr>firstName := ''Jane''\<rparr>) 2000 2001]
   \<and> store_draft (new_draft None default_values 3000 3001)
        [new_draft (Some (mockApplications ! 1)) default_values 1000 1001]
       = [new_draft (Some (mockApplications ! 1)) default_values 1000 1001,
          new_draft None default_values 3000 3001]"
proof -
  let ?es = "[Edit (mockApplications ! 1), SaveDraft default_values 1000 1001,
        SaveDraft (default_values\<lparr>firstName := ''Jane''\<rparr>) 2000 2001, New,
        SaveDraft default_values 3000 3001]"
  let ?d1 = "new_draft (Some (mockApplications ! 1)) default_values 1000 1001"
  let ?d2 = "new_draft (Some (mockApplications ! 1)) (default_values\<lparr>firstName := ''Jane''\<rparr>) 2000 2001"
  let ?d3 = "new_draft None default_values 3000 3001"
  have e: "map d_id (savedDrafts (run_app ?es initial_app)) = [2, 3000]"
    by (simp add: initial_app_def handleEditApplication_def newApplication_def
        handleSaveDraft_def store_draft_def new_draft_def mockApplications_def Let_def)
  have i1: "d_id ?d1 = 2" and i2: "d_id ?d2 = 2" and i3: "d_id ?d3 = 3000"
    by (simp_all add: new_draft_def mockApplications_def)
  have m2: "d_id ?d2 \<in> d_id ` set [?d1]"
    using i1 i2 by simp
  have m3: "d_id ?d3 \<notin> d_id ` set [?d1]"
    using i1 i3 by simp
  from savedDrafts_one_record_per_id [of ?es ?d2 "[?d1]"] m2
  obtain i where "i < length [?d1]" "store_draft ?d2 [?d1] = [?d1][i := ?d2]"
    by blast
  then have r2: "store_draft ?d2 [?d1] = [?d2]"
    by simp
  from savedDrafts_one_record_per_id [of ?es ?d3 "[?d1]"] m3
  have r3: "store_draft ?d3 [?d1] = [?d1, ?d3]"
    by simp
  from savedDrafts_one_record_per_id [of ?es ?d2 "[?d1]"]
  have "distinct (map d_id (savedDrafts (run_app ?es initial_app)))"
    by blast
  with e r2 r3 show ?thesis
    by blast
qed

text \<open>
  Claim C5, as the code has it. When the form was opened from an application of the list
  whose identifier is not \<open>0\<close>, and the clock does not run backwards between the two
  saves, two successive saves build two drafts that both carry that application's
  identifier and the status \<open>draft\<close>, each is in the store right after its save, and the
  second is stamped no earlier than the first. When no application is being edited, the
  first save leaves it so, and each of the two drafts takes the reading of the clock at
  its save as its identifier.
\<close>

theorem saveDraft_twice_editing:
  "(editingApplication st = Some a \<and> app_id a \<noteq> 0 \<and> savedNow1 \<le> savedNow2 \<longrightarrow>
      (let d1 = new_draft (editingApplication st) data1 now1 savedNow1;
           st1 = handleSaveDraft data1 now1 savedNow1 st;
           d2 = new_draft (editingApplication st1) data2 now2 savedNow2;
           st2 = handleSaveDraft data2 now2 savedNow2 st1
       in d1 \<in> set (savedDrafts st1) \<and> d2 \<in> set (savedDrafts st2)
          \<and> d_id d1 = app_id a \<and> d_id d2 = app_id a
          \<and> d_status d1 = ''draft'' \<and> d_status d2 = ''draft''
          \<and> d_savedAt d1 \<le> d_savedAt d2))
   \<and> (editingApplication st = None \<longrightarrow>
      (let d1 = new_draft (editingApplication st) data1 now1 savedNow1;
           st1 = handleSaveDraft data1 now1 savedNow1 st;
           d2 = new_draft (editingApplication st1) data2 now2 savedNow2
       in editingApplication st1 = None \<and> d_id d1 = now1 \<and> d_id d2 = now2))"
proof -
  have a: "editingApplication st = Some a \<and> app_id a \<noteq> 0 \<and> savedNow1 \<le> savedNow2 \<longrightarrow>
      (let d1 = new_draft (editingApplication st) data1 now1 savedNow1;
           st1 = handleSaveDraft data1 now1 savedNow1 st;
           d2 = new_draft (editingApplication st1) data2 now2 savedNow2;
           st2 = handleSaveDraft data2 now2 savedNow2 st1
       in d1 \<in> set (savedDrafts st1) \<and> d2 \<in> set (savedDrafts st2)
          \<and> d_id d1 = app_id a \<and> d_id d2 = app_id a
          \<and> d_status d1 = ''draft'' \<and> d_status d2 = ''draft''
          \<and> d_savedAt d1 \<le> d_savedAt d2)"
    by (simp add: Let_def handleSaveDraft_def mem_store_draft) (simp add: new_draft_def)
  have b: "editingApplication st = None \<longrightarrow>
      (let d1 = new_draft (editingApplication st) data1 now1 savedNow1;
           st1 = handleSaveDraft data1 now1 savedNow1 st;
           d2 = new_draft (editingApplication st1) data2 now2 savedNow2
       in editingApplication st1 = None \<and> d_id d1 = now1 \<and> d_id d2 = now2)"
    by (simp add: Let_def handleSaveDraft_def new_draft_def)
  from a b show ?thesis by blast
qed

text \<open>
  The theorem for the second mock application, saved at the readings 1001 and 2001, and
  for a new application saved at the same readings.
\<close>

theorem saveDraft_twice_editing_witness:
  "(let st = handleEditApplication (mockApplications ! 1) initial_app;
        d1 = new_draft (editingApplication st) default_values 1000 1001;
        st1 = handleSaveDraft default_values 1000 1001 st;
        d2 = new_draft (editingApplication st1) default_values 2000 2001
    in d_id d1 = 2 \<and> d_id d2 = 2 \<and> d_savedAt d1 \<le> d_savedAt d2)
   \<and> (let d1 = new_draft (editingApplication initial_app) default_values 1000 1001;
        st1 = handleSaveDraft default_values 1000 1001 initial_app;
        d2 = new_draft (editingApplication st1) default_values 2000 2001
    in editingApplication st1 = None \<and> d_id d1 = 1000 \<and> d_id d2 = 2000)"
proof -
  have a: "editingApplication (handleEditApplication (mockApplications ! 1) initial_app)
            = Some (mockApplications ! 1)"
    by (simp add: handleEditApplication_def)
  have b: "app_id (mockApplications ! 1) \<noteq> 0"
    by (simp add: mockApplications_def)
  have c: "(1001::int) \<le> 2001"
    by simp
  have d: "app_id (mockApplications ! 1) = 2"
    by (simp add: mockApplications_def)
  have n: "editingApplication initial_app = None"
    by (simp add: initial_app_def)
  have p1: "(let st = handleEditApplication (mockApplications ! 1) initial_app;
        d1 = new_draft (editingApplication st) default_values 1000 1001;
        st1 = handleSaveDraft default_values 1000 1001 st;
        d2 = new_draft (editingApplication st1) default_values 2000 2001
    in d_id d1 = 2 \<and> d_id d2 = 2 \<and> d_savedAt d1 \<le> d_savedAt d2)"
    using a b c d saveDraft_twice_editing [of
        "handleEditApplication (mockApplications ! 1) initial_app" "mockApplications ! 1"
        1001 2001 default_values 1000 default_values 2000]
    by (simp add: Let_def)
  have p2: "(let d1 = new_draft (editingApplication initial_app) default_values 1000 1001;
        st1 = handleSaveDraft default_values 1000 1001 initial_app;
        d2 = new_draft (editingApplication st1) default_values 2000 2001
    in editingApplication st1 = None \<and> d_id d1 = 1000 \<and> d_id d2 = 2000)"
    using n saveDraft_twice_editing [of initial_app "mockApplications ! 1"
        1001 2001 default_values 1000 default_values 2000]
    by (auto simp: Let_def)
  from p1 p2 show ?thesis by blast
qed

text \<open>
  Claim C5 as it is worded fails for a new application: nothing is being edited, before
  and after the first save, and two saves one second apart leave two records whose
  identifiers are the two readings of the clock.
\<close>

theorem saveDraft_twice_new_counterexample:
  "(let st1 = handleSaveDraft default_values 1000 1001 initial_app;
        st2 = handleSaveDraft default_values 2000 2001 st1
    in editingApplication st1 = editingApplication initial_app
       \<and> map d_id (savedDrafts st2) = [1000, 2000]
       \<and> d_id (new_draft (editingApplication initial_app) default_values 1000 1001)
           \<noteq> d_id (new_draft (editingApplication st1) default_values 2000 2001))"
  by (simp add: initial_app_def handleSaveDraft_def store_draft_def new_draft_def Let_def)


section \<open>Properties of the form state controller\<close>

subsection \<open>What the effects do to the state\<close>

lemma find_None_image: "(find (\<lambda>c. f c = k) xs = None) = (k \<notin> f ` set xs)"
  by (induction xs) auto

lemma countryEffect_cityId:
  "cityId (formValues (countryEffect s)) =
         (if cityId (formValues s) \<in> opt_id ` set (allowedCities (countryId (formValues s)))
          then cityId (formValues s) else 0)"
proof (cases "0 < countryId (formValues s)")
  case True
  define cs where
    "cs = (case citiesByCountry (countryId (formValues s)) of None \<Rightarrow> [] | Some cs \<Rightarrow> cs)"
  have al: "allowedCities (countryId (formValues s)) = cs"
    using True by (simp add: allowedCities_def cs_def)
  have eff: "countryEffect s =
      (if find (\<lambda>c. opt_id c = cityId (formValues s)) cs = None \<and> cityId (formValues s) \<noteq> 0
       then s\<lparr>availableCities := cs, formValues := (formValues s)\<lparr>cityId := 0\<rparr>\<rparr>
       else s\<lparr>availableCities := cs\<rparr>)"
    using True by (simp add: countryEffect_def Let_def cs_def)
  show ?thesis
    unfolding al eff by (simp add: find_None_image)
next
  case False
  then have al: "allowedCities (countryId (formValues s)) = []"
    by (simp add: allowedCities_def)
  from False have eff:
    "countryEffect s = s\<lparr>availableCities := [], formValues := (formValues s)\<lparr>cityId := 0\<rparr>\<rparr>"
    by (simp add: countryEffect_def Let_def)
  show ?thesis
    unfolding al eff by simp
qed

lemma countryEffect_fields:
  "firstName (formValues (countryEffect s)) = firstName (formValues s)"
  "lastName (formValues (countryEffect s)) = lastName (formValues s)"
  "email (formValues (countryEffect s)) = email (formValues s)"
  "phone (formValues (countryEffect s)) = phone (formValues s)"
  "countryId (formValues (countryEffect s)) = countryId (formValues s)"
  "address (formValues (countryEffect s)) = address (formValues s)"
  "postalCode (formValues (countryEffect s)) = postalCode (formValues s)"
  "industryId (formValues (countryEffect s)) = industryId (formValues s)"
  "roleId (formValues (countryEffect s)) = roleId (formValues s)"
  "experienceId (formValues (countryEffect s)) = experienceId (formValues s)"
  "expectedSalary (formValues (countryEffect s)) = expectedSalary (formValues s)"
  by (simp_all add: countryEffect_def Let_def)

lemma countryEffect_others:
  "availableCities (countryEffect s) = allowedCities (countryId (formValues s))"
  "availableRoles (countryEffect s) = availableRoles s"
  "selectedRole (countryEffect s) = selectedRole s"
  "step (countryEffect s) = step s"
  "formData (countryEffect s) = formData s"
  by (simp_all add: countryEffect_def allowedCities_def Let_def)

lemma industryEffect_roleId:
  "roleId (formValues (industryEffect s)) =
         (if roleId (formValues s) \<in> role_id ` set (allowedRoles (industryId (formValues s)))
          then roleId (formValues s) else 0)"
proof (cases "0 < industryId (formValues s)")
  case True
  define rs where
    "rs = (case rolesByIndustry (industryId (formValues s)) of None \<Rightarrow> [] | Some rs \<Rightarrow> rs)"
  have al: "allowedRoles (industryId (formValues s)) = rs"
    using True by (simp add: allowedRoles_def rs_def)
  have eff: "industryEffect s =
      (if find (\<lambda>r. role_id r = roleId (formValues s)) rs = None \<and> roleId (formValues s) \<noteq> 0
       then s\<lparr>availableRoles := rs, formValues := (formValues s)\<lparr>roleId := 0\<rparr>,
              selectedRole := None\<rparr>
       else s\<lparr>availableRoles := rs\<rparr>)"
    using True by (simp add: industryEffect_def Let_def rs_def)
  show ?thesis
    unfolding al eff by (simp add: find_None_image)
next
  case False
  then have al: "allowedRoles (industryId (formValues s)) = []"
    by (simp add: allowedRoles_def)
  from False have eff: "industryEffect s =
      s\<lparr>availableRoles := [], formValues := (formValues s)\<lparr>roleId := 0\<rparr>, selectedRole := None\<rparr>"
    by (simp add: industryEffect_def Let_def)
  show ?thesis
    unfolding al eff by simp
qed

lemma industryEffect_fields:
  "firstName (formValues (industryEffect s)) = firstName (formValues s)"
  "lastName (formValues (industryEffect s)) = lastName (formValues s)"
  "email (formValues (industryEffect s)) = email (formValues s)"
  "phone (formValues (industryEffect s)) = phone (formValues s)"
  "countryId (formValues (industryEffect s)) = countryId (formValues s)"
  "cityId (formValues (industryEffect s)) = cityId (formValues s)"
  "address (formValues (industryEffect s)) = address (formValues s)"
  "postalCode (formValues (industryEffect s)) = postalCode (formValues s)"
  "industryId (formValues (industryEffect s)) = industryId (formValues s)"
  "experienceId (formValues (industryEffect s)) = experienceId (formValues s)"
  "expectedSalary (formValues (industryEffect s)) = expectedSalary (formValues s)"
  by (simp_all add: industryEffect_def Let_def)

lemma industryEffect_others:
  "availableRoles (industryEffect s) = allowedRoles (industryId (formValues s))"
  "availableCities (industryEffect s) = availableCities s"
  "step (industryEffect s) = step s"
  "formData (industryEffect s) = formData s"
  by (simp_all add: industryEffect_def allowedRoles_def Let_def)

lemma roleEffect_others:
  "formValues (roleEffect s) = formValues s"
  "availableRoles (roleEffect s) = availableRoles s"
  "availableCities (roleEffect s) = availableCities s"
  "step (roleEffect s) = step s"
  "formData (roleEffect s) = formData s"
  by (simp_all add: roleEffect_def Let_def)

lemmas effect_simps =
  countryEffect_cityId countryEffect_fields countryEffect_others
  industryEffect_roleId industryEffect_fields industryEffect_others roleEffect_others

subsection \<open>The dependency cascade\<close>

text \<open>
  Once the effects have run, the option lists are those of the parents' values and the
  dependents are unset or allowed; a further update that picks a listed option for a
  dependent field, or sets any other field to any value, keeps it so.
\<close>

lemma mount_settled:
  "availableCities (mount init) = allowedCities (countryId (formValues (mount init)))
   \<and> availableRoles (mount init) = allowedRoles (industryId (formValues (mount init)))
   \<and> dependents_ok (mount init)"
  by (simp add: mount_def dependents_ok_def effect_simps)

lemma setField_settled:
  assumes "availableCities s = allowedCities (countryId (formValues s))"
      and "availableRoles s = allowedRoles (industryId (formValues s))"
      and "dependents_ok s" and "offered s u"
  shows "availableCities (setField u s) = allowedCities (countryId (formValues (setField u s)))
   \<and> availableRoles (setField u s) = allowedRoles (industryId (formValues (setField u s)))
   \<and> dependents_ok (setField u s)"
  using assms
  by (cases u) (simp_all add: setField_def run_effects_def dependents_ok_def Let_def effect_simps)

lemma setFields_settled:
  assumes "availableCities s = allowedCities (countryId (formValues s))"
      and "availableRoles s = allowedRoles (industryId (formValues s))"
      and "dependents_ok s" and "all_offered s us"
  shows "dependents_ok (setFields us s)"
  using assms
proof (induction us arbitrary: s)
  case Nil
  then show ?case by simp
next
  case (Cons u us)
  from Cons.prems have off: "offered s u" and rest: "all_offered (setField u s) us"
    by simp_all
  from setField_settled [OF Cons.prems(1) Cons.prems(2) Cons.prems(3) off]
  have "dependents_ok (setFields us (setField u s))"
    using rest Cons.IH by blast
  then show ?case by simp
qed

lemma all_offered_take: "all_offered s us \<Longrightarrow> all_offered s (take n us)"
proof (induction us arbitrary: s n)
  case Nil
  then show ?case by simp
next
  case (Cons u us)
  then show ?case by (cases n) simp_all
qed

lemma setField_country_cityId:
  "cityId (formValues (setField (SetCountryId v) s)) =
     (if countryId (formValues s) = v then cityId (formValues s)
      else if cityId (formValues s) \<in> opt_id ` set (allowedCities v) then cityId (formValues s)
      else 0)"
  by (simp add: setField_def run_effects_def Let_def effect_simps)

lemma setField_industry_roleId:
  "roleId (formValues (setField (SetIndustryId v) s)) =
     (if industryId (formValues s) = v then roleId (formValues s)
      else if roleId (formValues s) \<in> role_id ` set (allowedRoles v) then roleId (formValues s)
      else 0)"
  by (simp add: setField_def run_effects_def Let_def effect_simps)

text \<open>
  Claim C2. From the mounted form (with any initial data), along every sequence of
  \<open>setField\<close> calls that respects the fields' types, a dependent field (\<open>cityId\<close>,
  \<open>roleId\<close>) being set as its dropdown sets it, to the id of one of the options listed at
  that moment, and every other field to any value of its type: after each call, \<open>cityId\<close>
  is \<open>0\<close> or among the cities computed afresh from the current \<open>countryId\<close>, and \<open>roleId\<close> is
  \<open>0\<close> or among the roles computed afresh from the current \<open>industryId\<close>. And in any state
  whatever, when the parent changes to a value for which the dependent's value is not
  allowed, the dependent is cleared to \<open>0\<close>.
\<close>

theorem dependents_allowed_after_setField:
  assumes "all_offered (mount init) us"
  shows "dependents_ok (setFields (take n us) (mount init))
       \<and> (countryId (formValues s) \<noteq> v \<and> cityId (formValues s) \<notin> opt_id ` set (allowedCities v)
            \<longrightarrow> cityId (formValues (setField (SetCountryId v) s)) = 0)
       \<and> (industryId (formValues s) \<noteq> v \<and> roleId (formValues s) \<notin> role_id ` set (allowedRoles v)
            \<longrightarrow> roleId (formValues (setField (SetIndustryId v) s)) = 0)"
proof -
  from assms have "all_offered (mount init) (take n us)"
    by (rule all_offered_take)
  with mount_settled [of init] have a: "dependents_ok (setFields (take n us) (mount init))"
    by (blast intro: setFields_settled)
  have b: "countryId (formValues s) \<noteq> v \<and> cityId (formValues s) \<notin> opt_id ` set (allowedCities v)
            \<longrightarrow> cityId (formValues (setField (SetCountryId v) s)) = 0"
    by (simp add: setField_country_cityId)
  have c: "industryId (formValues s) \<noteq> v \<and> roleId (formValues s) \<notin> role_id ` set (allowedRoles v)
            \<longrightarrow> roleId (formValues (setField (SetIndustryId v) s)) = 0"
    by (simp add: setField_industry_roleId)
  from a b c show ?thesis by blast
qed

lemma ex_session_offered:
  "all_offered (mount default_values) [SetCountryId 1, SetCityId 101, SetCountryId 2]"
  by (simp add: setField_def run_effects_def mount_def Let_def effect_simps default_values_def
      allowedCities_def allowedRoles_def citiesByCountry_def)

text \<open>
  The theorem on the new form: country 1, then its city 101, then country 2, whose cities
  do not include 101; and industry 1, then its role 101, then industry 2.
\<close>

theorem dependents_allowed_after_setField_witness:
  "all_offered (mount default_values) [SetCountryId 1, SetCityId 101, SetCountryId 2]
   \<and> dependents_ok (setFields (take 2 [SetCountryId 1, SetCityId 101, SetCountryId 2])
        (mount default_values))
   \<and> cityId (formValues (setFields [SetCountryId 1, SetCityId 101] (mount default_values))) = 101
   \<and> cityId (formValues (setField (SetCountryId 2)
        (setFields [SetCountryId 1, SetCityId 101] (mount default_values)))) = 0
   \<and> roleId (formValues (setFields [SetIndustryId 1, SetRoleId 101] (mount default_values))) = 101
   \<and> roleId (formValues (setField (SetIndustryId 2)
        (setFields [SetIndustryId 1, SetRoleId 101] (mount default_values)))) = 0"
proof -
  let ?s = "setFields [SetCountryId 1, SetCityId 101] (mount default_values)"
  let ?t = "setFields [SetIndustryId 1, SetRoleId 101] (mount default_values)"
  have o: "all_offered (mount default_values) [SetCountryId 1, SetCityId 101, SetCountryId 2]"
    by (rule ex_session_offered)
  have c: "cityId (formValues ?s) = 101 \<and> countryId (formValues ?s) = 1"
    by (simp add: setField_def run_effects_def mount_def Let_def effect_simps default_values_def
      allowedCities_def allowedRoles_def citiesByCountry_def)
  have r: "roleId (formValues ?t) = 101 \<and> industryId (formValues ?t) = 1"
    by (simp add: setField_def run_effects_def mount_def Let_def effect_simps default_values_def
      allowedCities_def allowedRoles_def rolesByIndustry_def)
  have n: "(101::int) \<notin> opt_id ` set (allowedCities 2)"
    by (simp add: allowedCities_def citiesByCountry_def)
  have m: "(101::int) \<notin> role_id ` set (allowedRoles 2)"
    by (simp add: allowedRoles_def rolesByIndustry_def)
  show ?thesis
    using o c r n m
      dependents_allowed_after_setField [OF o, of 2 ?s 2]
      dependents_allowed_after_setField [OF o, of 2 ?t 2]
    by simp
qed

text \<open>
  The dropdown is what keeps a dependent's value within the list: \<open>onChange\<close> itself stores
  the value it is given, and no effect depends on \<open>cityId\<close>.
\<close>

lemma onChange_stores_unlisted_value:
  "\<not> dependents_ok (setFields [SetCountryId 1, SetCityId 999] (mount default_values))"
  by (simp add: dependents_ok_def setField_def run_effects_def mount_def Let_def effect_simps
      default_values_def allowedCities_def allowedRoles_def citiesByCountry_def)

text \<open>
  Claim C8. Let \<open>v\<close> be a parent value with no known options: the fresh option list of
  \<open>v\<close> is empty, because \<open>v\<close> is not a key of the table or is not a positive id. Then a
  change of the country to \<open>v\<close>, and likewise mounting the form with the country \<open>v\<close>,
  leaves the list of cities empty, the city unset (\<open>0\<close>) and the city dropdown disabled.
  The same holds of the industry and the role. The handlers are total functions of the
  state: the missing key is read through \<open>|| []\<close> and nothing is raised.
\<close>

theorem unknown_parent_clears_and_disables:
  "(allowedCities v = [] \<and> countryId (formValues s) \<noteq> v \<longrightarrow>
            availableCities (setField (SetCountryId v) s) = []
          \<and> countryId (formValues (setField (SetCountryId v) s)) = v
          \<and> cityId (formValues (setField (SetCountryId v) s)) = 0
          \<and> cityDisabled (setField (SetCountryId v) s))
   \<and> (allowedCities v = [] \<longrightarrow>
            availableCities (mount (init\<lparr>countryId := v\<rparr>)) = []
          \<and> cityId (formValues (mount (init\<lparr>countryId := v\<rparr>))) = 0
          \<and> cityDisabled (mount (init\<lparr>countryId := v\<rparr>)))
   \<and> (allowedRoles w = [] \<and> industryId (formValues s) \<noteq> w \<longrightarrow>
            availableRoles (setField (SetIndustryId w) s) = []
          \<and> industryId (formValues (setField (SetIndustryId w) s)) = w
          \<and> roleId (formValues (setField (SetIndustryId w) s)) = 0
          \<and> roleDisabled (setField (SetIndustryId w) s))"
  by (simp add: setField_def run_effects_def mount_def cityDisabled_def roleDisabled_def Let_def
      effect_simps)

text \<open>
  The theorem on the scenario of the specification: country 1 with its four cities and
  the city 101 chosen, then the country set to 9, which is not in the table, or to 0;
  a form mounted with the country 9; and industry 1 with the role 101, then industry 9.
\<close>

theorem unknown_parent_clears_and_disables_witness:
  "citiesByCountry 9 = None \<and> allowedCities 9 = [] \<and> allowedCities 0 = []
   \<and> rolesByIndustry 9 = None \<and> allowedRoles 9 = []
   \<and> cityId (formValues (setFields [SetCountryId 1, SetCityId 101] (mount default_values))) = 101
   \<and> length (availableCities (setFields [SetCountryId 1, SetCityId 101] (mount default_values))) = 4
   \<and> cityId (formValues (setField (SetCountryId 9)
        (setFields [SetCountryId 1, SetCityId 101] (mount default_values)))) = 0
   \<and> cityDisabled (setField (SetCountryId 9)
        (setFields [SetCountryId 1, SetCityId 101] (mount default_values)))
   \<and> cityDisabled (setField (SetCountryId 0)
        (setFields [SetCountryId 1, SetCityId 101] (mount default_values)))
   \<and> cityDisabled (mount (default_values\<lparr>countryId := 9\<rparr>))
   \<and> roleId (formValues (setField (SetIndustryId 9)
        (setFields [SetIndustryId 1, SetRoleId 101] (mount default_values)))) = 0
   \<and> roleDisabled (setField (SetIndustryId 9)
        (setFields [SetIndustryId 1, SetRoleId 101] (mount default_values)))"
proof -
  let ?s = "setFields [SetCountryId 1, SetCityId 101] (mount default_values)"
  let ?t = "setFields [SetIndustryId 1, SetRoleId 101] (mount default_values)"
  have n9: "citiesByCountry 9 = None" and r9: "rolesByIndustry 9 = None"
    by (simp_all add: citiesByCountry_def rolesByIndustry_def)
  have a9: "allowedCities 9 = []" and a0: "allowedCities 0 = []" and b9: "allowedRoles 9 = []"
    by (simp_all add: allowedCities_def citiesByCountry_def allowedRoles_def rolesByIndustry_def)
  have c: "cityId (formValues ?s) = 101 \<and> countryId (formValues ?s) = 1
           \<and> length (availableCities ?s) = 4"
    by (simp add: setField_def run_effects_def mount_def Let_def effect_simps default_values_def
      allowedCities_def allowedRoles_def citiesByCountry_def)
  have r: "industryId (formValues ?t) = 1"
    by (simp add: setField_def run_effects_def mount_def Let_def effect_simps default_values_def
      allowedCities_def allowedRoles_def rolesByIndustry_def)
  show ?thesis
    using n9 r9 a9 a0 b9 c r
      unknown_parent_clears_and_disables [of 9 ?s default_values 9]
      unknown_parent_clears_and_disables [of 0 ?s default_values 9]
      unknown_parent_clears_and_disables [of 9 ?t default_values 9]
    by simp
qed

subsection \<open>Advancing, retreating and submitting\<close>

lemma handleNext_blocked:
  "validateStep email_ok (step s) (formValues s) \<noteq> [] \<Longrightarrow>
     handleNext email_ok s =
       (s, [Errors (validateStep email_ok (step s) (formValues s)),
            Alert (Text ''Please fix the errors before continuing'')])"
  by (simp add: handleNext_def Let_def)

lemma handleNext_advances:
  "validateStep email_ok (step s) (formValues s) = [] \<Longrightarrow>
     handleNext email_ok s = (s\<lparr>formData := formValues s, step := step s + 1\<rparr>, [])"
  by (simp add: handleNext_def Let_def spread_def)

text \<open>
  Claim C6. When the current step's schema reports a failing field, \<open>handleNext\<close> returns
  the state as it was (step, store and \<open>formData\<close> alike) and hands over the list of
  failing fields and the alert. When the schema reports none, the step grows by one and
  the store is unchanged. So the step changes exactly when the validation passes.
\<close>

theorem handleNext_only_when_valid:
  "(validateStep email_ok (step s) (formValues s) \<noteq> [] \<longrightarrow>
      handleNext email_ok s =
        (s, [Errors (validateStep email_ok (step s) (formValues s)),
             Alert (Text ''Please fix the errors before continuing'')]))
   \<and> (validateStep email_ok (step s) (formValues s) = [] \<longrightarrow>
        step (fst (handleNext email_ok s)) = step s + 1
        \<and> formValues (fst (handleNext email_ok s)) = formValues s
        \<and> snd (handleNext email_ok s) = [])
   \<and> (step (fst (handleNext email_ok s)) \<noteq> step s
        \<longleftrightarrow> validateStep email_ok (step s) (formValues s) = [])"
  by (cases "validateStep email_ok (step s) (formValues s) = []")
     (simp_all add: handleNext_blocked handleNext_advances)

text \<open>
  The theorem on the empty new form, where all four fields of step 1 fail, and on a form
  whose step 1 is filled in.
\<close>

theorem handleNext_only_when_valid_witness:
  "handleNext (\<lambda>e. CHR ''@'' \<in> set e) (mount default_values) =
     (mount default_values,
      [Errors [(F_firstName, ''First name must be at least 2 characters''),
               (F_lastName, ''Last name must be at least 2 characters''),
               (F_email, ''Invalid email address''),
               (F_phone, ''Invalid phone number'')],
       Alert (Text ''Please fix the errors before continuing'')])
   \<and> step (fst (handleNext (\<lambda>e. CHR ''@'' \<in> set e)
         (mount (default_values\<lparr>firstName := ''Jane'', lastName := ''Smith'',
                   email := ''jane@example.com'', phone := ''+1 (555) 123-4567''\<rparr>)))) = 2"
proof -
  have st: "step (mount init) = 1" for init
    by (simp add: mount_def effect_simps)
  have fv: "firstName (formValues (mount init)) = firstName init
         \<and> lastName (formValues (mount init)) = lastName init
         \<and> email (formValues (mount init)) = email init
         \<and> phone (formValues (mount init)) = phone init" for init
    by (simp add: mount_def effect_simps)
  have bad: "validateStep (\<lambda>e. CHR ''@'' \<in> set e) (step (mount default_values))
               (formValues (mount default_values))
             = [(F_firstName, ''First name must be at least 2 characters''),
               (F_lastName, ''Last name must be at least 2 characters''),
               (F_email, ''Invalid email address''),
               (F_phone, ''Invalid phone number'')]"
    by (simp add: st fv validateStep_def personalInfoSchema_def check_def default_values_def
        phone_ok_def)
  have good: "validateStep (\<lambda>e. CHR ''@'' \<in> set e)
       (step (mount (default_values\<lparr>firstName := ''Jane'', lastName := ''Smith'',
                   email := ''jane@example.com'', phone := ''+1 (555) 123-4567''\<rparr>)))
       (formValues (mount (default_values\<lparr>firstName := ''Jane'', lastName := ''Smith'',
                   email := ''jane@example.com'', phone := ''+1 (555) 123-4567''\<rparr>))) = []"
    by (simp add: st fv validateStep_def personalInfoSchema_def check_def default_values_def
        phone_ok_def phone_char_def)
  show ?thesis
    using bad good st
      handleNext_only_when_valid [of "\<lambda>e. CHR ''@'' \<in> set e" "mount default_values"]
      handleNext_only_when_valid [of "\<lambda>e. CHR ''@'' \<in> set e"
        "mount (default_values\<lparr>firstName := ''Jane'', lastName := ''Smith'',
                   email := ''jane@example.com'', phone := ''+1 (555) 123-4567''\<rparr>)"]
    by simp
qed

subsection \<open>The selected role is the role of the store\<close>

lemma roleEffect_selectedRole:
  "selectedRole (roleEffect s) =
     (if 0 < roleId (formValues s)
      then find (\<lambda>r. role_id r = roleId (formValues s)) (availableRoles s) else None)"
proof (cases "0 < roleId (formValues s)")
  case True
  then show ?thesis
    by (simp add: roleEffect_def Let_def)
next
  case False
  then show ?thesis
    by (simp add: roleEffect_def Let_def)
qed

lemma mount_selection_settled: "selection_settled (mount init)"
  by (simp add: selection_settled_def mount_def roleEffect_selectedRole effect_simps)

lemma setField_selection_settled:
  "selection_settled s \<Longrightarrow> selection_settled (setField u s)"
  by (cases u)
     (simp_all add: selection_settled_def setField_def run_effects_def Let_def
        roleEffect_selectedRole effect_simps)

lemma handleNext_selection_settled:
  "selection_settled s \<Longrightarrow> selection_settled (fst (handleNext email_ok s))"
  by (cases "validateStep email_ok (step s) (formValues s) = []")
     (simp_all add: handleNext_blocked handleNext_advances selection_settled_def)

lemma handlePrevious_selection_settled:
  "selection_settled s \<Longrightarrow> selection_settled (handlePrevious s)"
  by (simp add: handlePrevious_def selection_settled_def)

lemma ui_event_selection_settled:
  "selection_settled s \<Longrightarrow> selection_settled (ui_event email_ok e s)"
  by (cases e)
     (simp_all add: setField_selection_settled handleNext_selection_settled
        handlePrevious_selection_settled)

lemma run_events_selection_settled:
  "selection_settled s \<Longrightarrow> selection_settled (run_events email_ok es s)"
  by (induction es arbitrary: s) (simp_all add: ui_event_selection_settled)

text \<open>
  Claim C3. In a state that the rendered form has reached, on step 3, let \<open>r\<close> be the role
  of the current industry's list whose id is the current \<open>roleId\<close>, and let the expected
  salary be strictly below the minimum of \<open>r\<close>. When every field of the step passes its
  own rule, \<open>submit\<close> does not call \<open>onSubmit\<close> and alerts the message that carries the
  name of \<open>r\<close> and its minimum salary; when a field fails its own rule, \<open>submit\<close> hands over
  those field errors instead. The role that the component holds as selected is \<open>r\<close>. The
  step's own validation knows nothing of the minimum: it faults the salary exactly when
  the salary is below 1, and \<open>handleNext\<close> on such a state advances whenever the fields
  pass.
\<close>

theorem submit_below_role_minimum:
  assumes "s = run_events email_ok es (mount init)" and "step s = 3"
      and "find (\<lambda>r. role_id r = roleId (formValues s))
             (allowedRoles (industryId (formValues s))) = Some r"
      and "expectedSalary (formValues s) < minSalary r"
  shows "submit email_ok s =
           (if validateStep email_ok 3 (formValues s) = []
            then (s, [Alert (MinimumSalaryFor (role_name r) (minSalary r))])
            else (s, [Errors (validateStep email_ok 3 (formValues s))]))
       \<and> (0 < roleId (formValues s) \<longrightarrow> selectedRole s = Some r)
       \<and> (F_expectedSalary \<in> fst ` set (validateStep email_ok 3 (formValues s))
            \<longleftrightarrow> expectedSalary (formValues s) < 1)
       \<and> (validateStep email_ok 3 (formValues s) = [] \<longrightarrow>
            step (fst (handleNext email_ok s)) = 4 \<and> snd (handleNext email_ok s) = [])"
proof -
  have "selection_settled s"
    unfolding assms(1) by (rule run_events_selection_settled) (rule mount_selection_settled)
  with assms(3) have sel: "0 < roleId (formValues s) \<longrightarrow> selectedRole s = Some r"
    by (simp add: selection_settled_def)
  have pos: "validateStep email_ok 3 (formValues s) = [] \<Longrightarrow>
      expectedSalary (formValues s) \<noteq> 0 \<and> 0 < roleId (formValues s)"
    by (auto simp: validateStep_def professionalInfoSchema_def check_def split: if_splits)
  have a: "submit email_ok s =
           (if validateStep email_ok 3 (formValues s) = []
            then (s, [Alert (MinimumSalaryFor (role_name r) (minSalary r))])
            else (s, [Errors (validateStep email_ok 3 (formValues s))]))"
  proof (cases "validateStep email_ok 3 (formValues s) = []")
    case True
    with pos sel have "selectedRole s = Some r" "expectedSalary (formValues s) \<noteq> 0"
      by simp_all
    with True assms(2) assms(4) show ?thesis
      by (simp add: submit_def handleFinalSubmit_def salaryError_def Let_def)
  next
    case False
    with assms(2) show ?thesis
      by (simp add: submit_def Let_def)
  qed
  have b: "F_expectedSalary \<in> fst ` set (validateStep email_ok 3 (formValues s))
            \<longleftrightarrow> expectedSalary (formValues s) < 1"
    by (auto simp: validateStep_def professionalInfoSchema_def check_def split: if_splits)
  have c: "validateStep email_ok 3 (formValues s) = [] \<longrightarrow>
            step (fst (handleNext email_ok s)) = 4 \<and> snd (handleNext email_ok s) = []"
    using assms(2) by (simp add: handleNext_def Let_def)
  from a sel b c show ?thesis by blast
qed

text \<open>
  The theorem on the scenario of the specification, as a session of the form: the three
  steps are filled in and passed with Next, the role Software Engineer (minimum 80000)
  is chosen and the expected salary is 75000. The submission is refused with the message
  of the minimum, while the step's own validation passes and \<open>handleNext\<close> would advance.
\<close>

theorem submit_below_role_minimum_witness:
  "step (run_events (\<lambda>e. CHR ''@'' \<in> set e)
     [Change (SetFirstName ''Jane''), Change (SetLastName ''Smith''),
      Change (SetEmail ''jane@example.com''), Change (SetPhone ''+1 (555) 123-4567''), Next,
      Change (SetCountryId 1), Change (SetCityId 101), Change (SetAddress ''1 Main Street''),
      Change (SetPostalCode ''10001''), Next,
      Change (SetIndustryId 1), Change (SetRoleId 101), Change (SetExperienceId 2),
      Change (SetExpectedSalary 75000)] (mount default_values)) = 3
   \<and> selectedRole (run_events (\<lambda>e. CHR ''@'' \<in> set e)
     [Change (SetFirstName ''Jane''), Change (SetLastName ''Smith''),
      Change (SetEmail ''jane@example.com''), Change (SetPhone ''+1 (555) 123-4567''), Next,
      Change (SetCountryId 1), Change (SetCityId 101), Change (SetAddress ''1 Main Street''),
      Change (SetPostalCode ''10001''), Next,
      Change (SetIndustryId 1), Change (SetRoleId 101), Change (SetExperienceId 2),
      Change (SetExpectedSalary 75000)] (mount default_values))
      = Some \<lparr>role_id = 101, role_name = ''Software Engineer'', minSalary = 80000\<rparr>
   \<and> snd (submit (\<lambda>e. CHR ''@'' \<in> set e) (run_events (\<lambda>e. CHR ''@'' \<in> set e)
     [Change (SetFirstName ''Jane''), Change (SetLastName ''Smith''),
      Change (SetEmail ''jane@example.com''), Change (SetPhone ''+1 (555) 123-4567''), Next,
      Change (SetCountryId 1), Change (SetCityId 101), Change (SetAddress ''1 Main Street''),
      Change (SetPostalCode ''10001''), Next,
      Change (SetIndustryId 1), Change (SetRoleId 101), Change (SetExperienceId 2),
      Change (SetExpectedSalary 75000)] (mount default_values)))
      = [Alert (MinimumSalaryFor ''Software Engineer'' 80000)]
   \<and> validateStep (\<lambda>e. CHR ''@'' \<in> set e) 3 (formValues (run_events (\<lambda>e. CHR ''@'' \<in> set e)
     [Change (SetFirstName ''Jane''), Change (SetLastName ''Smith''),
      Change (SetEmail ''jane@example.com''), Change (SetPhone ''+1 (555) 123-4567''), Next,
      Change (SetCountryId 1), Change (SetCityId 101), Change (SetAddress ''1 Main Street''),
      Change (SetPostalCode ''10001''), Next,
      Change (SetIndustryId 1), Change (SetRoleId 101), Change (SetExperienceId 2),
      Change (SetExpectedSalary 75000)] (mount default_values))) = []
   \<and> step (fst (handleNext (\<lambda>e. CHR ''@'' \<in> set e) (run_events (\<lambda>e. CHR ''@'' \<in> set e)
     [Change (SetFirstName ''Jane''), Change (SetLastName ''Smith''),
      Change (SetEmail ''jane@example.com''), Change (SetPhone ''+1 (555) 123-4567''), Next,
      Change (SetCountryId 1), Change (SetCityId 101), Change (SetAddress ''1 Main Street''),
      Change (SetPostalCode ''10001''), Next,
      Change (SetIndustryId 1), Change (SetRoleId 101), Change (SetExperienceId 2),
      Change (SetExpectedSalary 75000)] (mount default_values)))) = 4"
proof -
  define s0 where "s0 = run_events (\<lambda>e. CHR ''@'' \<in> set e)
     [Change (SetFirstName ''Jane''), Change (SetLastName ''Smith''),
      Change (SetEmail ''jane@example.com''), Change (SetPhone ''+1 (555) 123-4567''), Next,
      Change (SetCountryId 1), Change (SetCityId 101), Change (SetAddress ''1 Main Street''),
      Change (SetPostalCode ''10001''), Next,
      Change (SetIndustryId 1), Change (SetRoleId 101), Change (SetExperienceId 2),
      Change (SetExpectedSalary 75000)] (mount default_values)"
  define r0 where "r0 = \<lparr>role_id = 101, role_name = ''Software Engineer'', minSalary = 80000\<rparr>"
  have st: "step s0 = 3"
    unfolding s0_def by code_simp
  have f: "find (\<lambda>r. role_id r = roleId (formValues s0))
             (allowedRoles (industryId (formValues s0))) = Some r0"
    unfolding s0_def r0_def by code_simp
  have lt: "expectedSalary (formValues s0) < minSalary r0"
    unfolding s0_def r0_def by code_simp
  have ok: "validateStep (\<lambda>e. CHR ''@'' \<in> set e) 3 (formValues s0) = []"
    unfolding s0_def by code_simp
  have nm: "role_name r0 = ''Software Engineer''" "minSalary r0 = 80000"
    by (simp_all add: r0_def)
  have ps: "0 < roleId (formValues s0)"
    unfolding s0_def by code_simp
  from submit_below_role_minimum [OF s0_def st f lt] ok nm ps
  have "snd (submit (\<lambda>e. CHR ''@'' \<in> set e) s0)
          = [Alert (MinimumSalaryFor ''Software Engineer'' 80000)]
      \<and> step (fst (handleNext (\<lambda>e. CHR ''@'' \<in> set e) s0)) = 4
      \<and> selectedRole s0 = Some r0"
    by simp
  with st ok have "step s0 = 3
      \<and> selectedRole s0 = Some r0
      \<and> snd (submit (\<lambda>e. CHR ''@'' \<in> set e) s0)
          = [Alert (MinimumSalaryFor ''Software Engineer'' 80000)]
      \<and> validateStep (\<lambda>e. CHR ''@'' \<in> set e) 3 (formValues s0) = []
      \<and> step (fst (handleNext (\<lambda>e. CHR ''@'' \<in> set e) s0)) = 4"
    by blast
  then show ?thesis
    unfolding s0_def r0_def .
qed

subsection \<open>States that the rendered form reaches\<close>

lemma mount_earlier_steps_valid: "earlier_steps_valid email_ok (mount init)"
  by (simp add: earlier_steps_valid_def mount_def effect_simps)

lemma setField_step: "step (setField u s) = step s"
  by (simp add: setField_def run_effects_def Let_def effect_simps)

lemma setField_keeps_personal:
  "field_step u \<noteq> 1 \<Longrightarrow>
     personalInfoSchema email_ok (formValues (setField u s))
       = personalInfoSchema email_ok (formValues s)"
  by (cases u) (simp_all add: personalInfoSchema_def setField_def run_effects_def Let_def effect_simps)

lemma setField_keeps_location:
  "field_step u = 3 \<Longrightarrow>
     locationSchema (formValues (setField u s)) = locationSchema (formValues s)"
  by (cases u) (simp_all add: locationSchema_def setField_def run_effects_def Let_def effect_simps)

lemma change_earlier_steps_valid:
  assumes "earlier_steps_valid email_ok s" and "field_step u = step s"
  shows "earlier_steps_valid email_ok (setField u s)"
proof -
  from assms(1) have rng: "1 \<le> step s" "step s \<le> 3"
    by (simp_all add: earlier_steps_valid_def)
  then consider "step s = 1" | "step s = 2" | "step s = 3"
    by arith
  then show ?thesis
  proof cases
    case 1
    then show ?thesis
      by (simp add: earlier_steps_valid_def setField_step)
  next
    case 2
    with assms(2) have "field_step u \<noteq> 1"
      by simp
    from setField_keeps_personal [OF this] assms(1) 2 show ?thesis
      by (simp add: earlier_steps_valid_def setField_step validateStep_def)
  next
    case 3
    with assms(2) have f: "field_step u = 3"
      by simp
    then have "field_step u \<noteq> 1"
      by simp
    from setField_keeps_personal [OF this] setField_keeps_location [OF f] assms(1) 3 show ?thesis
      by (simp add: earlier_steps_valid_def setField_step validateStep_def)
  qed
qed

lemma ui_event_earlier_steps_valid:
  assumes "earlier_steps_valid email_ok s"
  shows "earlier_steps_valid email_ok (ui_event email_ok e s)"
proof (cases e)
  case (Change u)
  with assms show ?thesis
    by (simp add: change_earlier_steps_valid)
next
  case Next
  show ?thesis
  proof (cases "step s < 3 \<and> validateStep email_ok (step s) (formValues s) = []")
    case True
    from assms have "1 \<le> step s"
      by (simp add: earlier_steps_valid_def)
    with True consider "step s = 1" | "step s = 2"
      by arith
    then show ?thesis
    proof cases
      case 1
      with True assms Next show ?thesis
        by (simp add: handleNext_advances earlier_steps_valid_def)
    next
      case 2
      with True assms Next show ?thesis
        by (simp add: handleNext_advances earlier_steps_valid_def)
    qed
  next
    case False
    with assms Next show ?thesis
      by (auto simp: handleNext_blocked)
  qed
next
  case Previous
  with assms show ?thesis
    by (auto simp: handlePrevious_def earlier_steps_valid_def)
qed

lemma run_events_earlier_steps_valid:
  "earlier_steps_valid email_ok s \<Longrightarrow> earlier_steps_valid email_ok (run_events email_ok es s)"
  by (induction es arbitrary: s) (simp_all add: ui_event_earlier_steps_valid)

lemma retreat_advance:
  assumes "validateStep email_ok (step s - 1) (formValues s) = []"
  shows "fst (handleNext email_ok (handlePrevious s)) = s\<lparr>formData := formValues s\<rparr>"
proof -
  have "validateStep email_ok (step (handlePrevious s)) (formValues (handlePrevious s)) = []"
    using assms by (simp add: handlePrevious_def)
  from handleNext_advances [OF this] show ?thesis
    by (simp add: handlePrevious_def spread_def)
qed

text \<open>
  Claim C7. In any state whose preceding step passes its schema, \<open>handlePrevious\<close>
  followed by \<open>handleNext\<close> gives back the same step and the same field values, and a
  draft saved then carries the same data. Every state that the rendered form reaches
  from its mount with a step above 1 is such a state: the steps below the current one
  were validated on the way, and no control of a later step changes their fields.
\<close>

theorem retreat_then_advance_restores:
  "(validateStep email_ok (step s - 1) (formValues s) = [] \<longrightarrow>
      step (fst (handleNext email_ok (handlePrevious s))) = step s
      \<and> formValues (fst (handleNext email_ok (handlePrevious s))) = formValues s
      \<and> snd (form_handleSaveDraft (fst (handleNext email_ok (handlePrevious s))))
          = snd (form_handleSaveDraft s))
   \<and> (step (run_events email_ok es (mount init)) > 1 \<longrightarrow>
      step (fst (handleNext email_ok (handlePrevious (run_events email_ok es (mount init)))))
          = step (run_events email_ok es (mount init))
      \<and> formValues (fst (handleNext email_ok (handlePrevious (run_events email_ok es (mount init)))))
          = formValues (run_events email_ok es (mount init))
      \<and> snd (form_handleSaveDraft
            (fst (handleNext email_ok (handlePrevious (run_events email_ok es (mount init))))))
          = snd (form_handleSaveDraft (run_events email_ok es (mount init))))"
proof -
  have gen: "validateStep email_ok (step t - 1) (formValues t) = [] \<Longrightarrow>
      step (fst (handleNext email_ok (handlePrevious t))) = step t
      \<and> formValues (fst (handleNext email_ok (handlePrevious t))) = formValues t
      \<and> snd (form_handleSaveDraft (fst (handleNext email_ok (handlePrevious t))))
          = snd (form_handleSaveDraft t)" for t
    by (simp add: retreat_advance form_handleSaveDraft_def spread_def)
  let ?s = "run_events email_ok es (mount init)"
  have inv: "earlier_steps_valid email_ok ?s"
    by (rule run_events_earlier_steps_valid) (rule mount_earlier_steps_valid)
  have reach: "step ?s > 1 \<Longrightarrow> validateStep email_ok (step ?s - 1) (formValues ?s) = []"
  proof -
    assume gt: "step ?s > 1"
    from inv have "step ?s \<le> 3"
      by (simp add: earlier_steps_valid_def)
    with gt consider "step ?s = 2" | "step ?s = 3"
      by arith
    then show ?thesis
    proof cases
      case 1
      with inv show ?thesis
        by (simp add: earlier_steps_valid_def)
    next
      case 2
      with inv show ?thesis
        by (simp add: earlier_steps_valid_def)
    qed
  qed
  from gen [of s] gen [of ?s] reach show ?thesis
    by blast
qed

text \<open>
  The theorem on a session: step 1 is filled in, Next leads to step 2, a country is
  chosen there (a change of a step-1 field is not rendered and does nothing); step 1
  still passes its schema, and back and forth again leaves step 2 and the chosen country.
\<close>

theorem retreat_then_advance_restores_witness:
  "step (run_events (\<lambda>e. CHR ''@'' \<in> set e)
     [Change (SetFirstName ''Jane''), Change (SetLastName ''Smith''),
      Change (SetEmail ''jane@example.com''), Change (SetPhone ''+1 (555) 123-4567''), Next,
      Change (SetCountryId 1), Change (SetFirstName ''X'')] (mount default_values)) = 2
   \<and> validateStep (\<lambda>e. CHR ''@'' \<in> set e) 1
       (formValues (run_events (\<lambda>e. CHR ''@'' \<in> set e)
     [Change (SetFirstName ''Jane''), Change (SetLastName ''Smith''),
      Change (SetEmail ''jane@example.com''), Change (SetPhone ''+1 (555) 123-4567''), Next,
      Change (SetCountryId 1), Change (SetFirstName ''X'')] (mount default_values))) = []
   \<and> step (fst (handleNext (\<lambda>e. CHR ''@'' \<in> set e) (handlePrevious
       (run_events (\<lambda>e. CHR ''@'' \<in> set e)
     [Change (SetFirstName ''Jane''), Change (SetLastName ''Smith''),
      Change (SetEmail ''jane@example.com''), Change (SetPhone ''+1 (555) 123-4567''), Next,
      Change (SetCountryId 1), Change (SetFirstName ''X'')] (mount default_values))))) = 2
   \<and> countryId (formValues (fst (handleNext (\<lambda>e. CHR ''@'' \<in> set e) (handlePrevious
       (run_events (\<lambda>e. CHR ''@'' \<in> set e)
     [Change (SetFirstName ''Jane''), Change (SetLastName ''Smith''),
      Change (SetEmail ''jane@example.com''), Change (SetPhone ''+1 (555) 123-4567''), Next,
      Change (SetCountryId 1), Change (SetFirstName ''X'')] (mount default_values)))))) = 1"
proof -
  define s0 where "s0 = run_events (\<lambda>e. CHR ''@'' \<in> set e)
     [Change (SetFirstName ''Jane''), Change (SetLastName ''Smith''),
      Change (SetEmail ''jane@example.com''), Change (SetPhone ''+1 (555) 123-4567''), Next,
      Change (SetCountryId 1), Change (SetFirstName ''X'')] (mount default_values)"
  have st: "step s0 = 2"
    unfolding s0_def by code_simp
  have c: "countryId (formValues s0) = 1"
    unfolding s0_def by code_simp
  have v: "validateStep (\<lambda>e. CHR ''@'' \<in> set e) 1 (formValues s0) = []"
    unfolding s0_def by code_simp
  have r: "step (fst (handleNext (\<lambda>e. CHR ''@'' \<in> set e) (handlePrevious s0))) = step s0
      \<and> formValues (fst (handleNext (\<lambda>e. CHR ''@'' \<in> set e) (handlePrevious s0))) = formValues s0"
    using retreat_then_advance_restores [of "\<lambda>e. CHR ''@'' \<in> set e" s0
     "[Change (SetFirstName ''Jane''), Change (SetLastName ''Smith''),
      Change (SetEmail ''jane@example.com''), Change (SetPhone ''+1 (555) 123-4567''), Next,
      Change (SetCountryId 1), Change (SetFirstName ''X'')]" default_values, folded s0_def] st v
    by simp
  have "step s0 = 2
     \<and> validateStep (\<lambda>e. CHR ''@'' \<in> set e) 1 (formValues s0) = []
     \<and> step (fst (handleNext (\<lambda>e. CHR ''@'' \<in> set e) (handlePrevious s0))) = 2
     \<and> countryId (formValues (fst (handleNext (\<lambda>e. CHR ''@'' \<in> set e) (handlePrevious s0)))) = 1"
    using st c v r by simp
  then show ?thesis
    unfolding s0_def .
qed

end
